theory Spec2Isabelle
  imports Complex_Main "HOL-Library.AList"
begin

section \<open>The JavaScript runtime the forecast table relies on\<close>

text \<open>
  The component \<^verbatim>\<open>ForecastDataTable\<close> builds its pivot with the engine's \<^verbatim>\<open>Date\<close>
  object, template strings, a \<^verbatim>\<open>Map\<close> and plain objects. Each of these is written out
  here as far as the component uses it.

  A \<^verbatim>\<open>Date\<close> is its time value: milliseconds since the epoch, or \<^verbatim>\<open>NaN\<close> for an
  invalid date, which is \<open>None\<close>. Three things the engine supplies are fields of the
  runtime environment: the current instant read by \<^verbatim>\<open>new Date()\<close>, the result of
  \<^verbatim>\<open>new Date(s)\<close> on a string, and the offset of local time from UTC, which is taken to
  be constant (no daylight saving switch).
\<close>

record runtime =
  now :: int
  parseDate :: "string \<Rightarrow> int option"
  tzOffset :: int

type_synonym date = "int option"

definition msPerDay :: int where
  "msPerDay = 86400000"

text \<open>Calendar arithmetic on day numbers (days since 1 January 1970).\<close>

definition dayFromYear :: "int \<Rightarrow> int" where
  "dayFromYear y =
     365 * (y - 1970) + (y - 1969) div 4 - (y - 1901) div 100 + (y - 1601) div 400"

definition yearFromDay :: "int \<Rightarrow> int" where
  "yearFromDay d =
     (let z = d + 719468;
          era = z div 146097;
          doe = z mod 146097;
          yoe = (doe - doe div 1460 + doe div 36524 - doe div 146096) div 365;
          doy = doe - (365 * yoe + yoe div 4 - yoe div 100);
          mp = (5 * doy + 2) div 153
      in yoe + era * 400 + (if mp < 10 then 0 else 1))"

definition isLeapYear :: "int \<Rightarrow> bool" where
  "isLeapYear y = (if y mod 400 = 0 then True else if y mod 100 = 0 then False else y mod 4 = 0)"

definition monthLengths :: "int \<Rightarrow> int list" where
  "monthLengths y = [31, if isLeapYear y then 29 else 28, 31, 30, 31, 30, 31, 31, 30, 31, 30, 31]"

text \<open>Month index (0 is January) and day of the month of the \<open>n\<close>-th day (from 0) of a year.\<close>

fun monthAndDate :: "int list \<Rightarrow> nat \<Rightarrow> int \<Rightarrow> nat \<times> int" where
  "monthAndDate [] m n = (m, n + 1)"
| "monthAndDate (l # ls) m n = (if n < l then (m, n + 1) else monthAndDate ls (Suc m) (n - l))"

definition localDay :: "runtime \<Rightarrow> int \<Rightarrow> int" where
  "localDay env t = (t + tzOffset env) div msPerDay"

text \<open>The methods of a valid date, on its time value.\<close>

definition getFullYear :: "runtime \<Rightarrow> int \<Rightarrow> int" where
  "getFullYear env t = yearFromDay (localDay env t)"

definition getDay :: "runtime \<Rightarrow> int \<Rightarrow> int" where
  "getDay env t = (localDay env t + 4) mod 7"

definition getMonth :: "runtime \<Rightarrow> int \<Rightarrow> nat" where
  "getMonth env t =
     (let y = getFullYear env t
      in fst (monthAndDate (monthLengths y) 0 (localDay env t - dayFromYear y)))"

definition getDate :: "runtime \<Rightarrow> int \<Rightarrow> int" where
  "getDate env t =
     (let y = getFullYear env t
      in snd (monthAndDate (monthLengths y) 0 (localDay env t - dayFromYear y)))"

text \<open>
  \<^verbatim>\<open>new Date(year, 0, day)\<close>: local midnight of the \<open>day\<close>-th day counted from 1 January
  of \<open>year\<close>; days outside January roll over into the neighbouring months. The
  constructor reads a year from 0 to 99 as 1900 plus that year. Its result is a valid
  date for every year a time value can have, apart from the first year of the range of
  time values (271821 BC), which is left aside.
\<close>

definition newDateYearDay :: "runtime \<Rightarrow> int \<Rightarrow> int \<Rightarrow> int" where
  "newDateYearDay env year day =
     (let yr = (if 0 \<le> year \<and> year \<le> 99 then 1900 + year else year)
      in (dayFromYear yr + day - 1) * msPerDay - tzOffset env)"

definition newDate :: "runtime \<Rightarrow> string \<Rightarrow> date" where
  "newDate env s = parseDate env s"

text \<open>Numbers in template strings: the decimal digits of an integer, with a sign.\<close>

definition digitChar :: "nat \<Rightarrow> char" where
  "digitChar n = char_of (48 + n)"

fun showNat :: "nat \<Rightarrow> string" where
  "showNat n = (if n < 10 then [digitChar n] else showNat (n div 10) @ [digitChar (n mod 10)])"

declare showNat.simps [simp del]

definition showInt :: "int \<Rightarrow> string" where
  "showInt i = (if i < 0 then CHR ''-'' # showNat (nat (- i)) else showNat (nat i))"

definition monthShort :: "nat \<Rightarrow> string" where
  "monthShort m =
     [''Jan'', ''Feb'', ''Mar'', ''Apr'', ''May'', ''Jun'',
      ''Jul'', ''Aug'', ''Sep'', ''Oct'', ''Nov'', ''Dec''] ! (m mod 12)"

text \<open>
  A numeric cell read through \<^verbatim>\<open>x || 0\<close>. The quantities arrive as JSON numbers, so
  \<^verbatim>\<open>NaN\<close> does not occur and the only falsy number is zero.
\<close>

definition orZero :: "rat \<Rightarrow> rat" where
  "orZero x = (if x = 0 then 0 else x)"

text \<open>
  A plain object with numeric values keeps its properties in the order of their first
  assignment; assigning to a property that exists replaces its value in place.
\<close>

type_synonym numObject = "(string \<times> rat) list"

definition objSet :: "numObject \<Rightarrow> string \<Rightarrow> rat \<Rightarrow> numObject" where
  "objSet obj k v = AList.update k v obj"

definition objGet :: "numObject \<Rightarrow> string \<Rightarrow> rat option" where
  "objGet obj k = map_of obj k"

section \<open>The week helpers of the table\<close>

text \<open>
  \<^verbatim>\<open>getWeekNumber\<close>: the days elapsed since local 1 January, a fraction in general, plus
  the weekday of 1 January plus one, divided by seven and rounded up. The quotients are
  exact here; the doubles of the source round them by less than the distance of any
  such quotient from the next integer, so the rounded-up result is the same. On an
  invalid date every intermediate value, and the result, is \<^verbatim>\<open>NaN\<close>.
\<close>

definition weekOfTime :: "runtime \<Rightarrow> int \<Rightarrow> int" where
  "weekOfTime env t =
     (let startOfYear = newDateYearDay env (getFullYear env t) 1;
          pastDaysOfYear = (of_int (t - startOfYear) :: rat) / of_int msPerDay
      in \<lceil>(pastDaysOfYear + of_int (getDay env startOfYear) + 1) / 7\<rceil>)"

definition getWeekNumber :: "runtime \<Rightarrow> date \<Rightarrow> int option" where
  "getWeekNumber env d = map_option (weekOfTime env) d"

definition formatDate :: "runtime \<Rightarrow> int \<Rightarrow> string" where
  "formatDate env t = showInt (getDate env t) @ '' '' @ monthShort (getMonth env t)"

definition getWeekDateRange :: "runtime \<Rightarrow> int \<Rightarrow> int \<Rightarrow> string" where
  "getWeekDateRange env weekNumber year =
     (let startDay = 1 + (weekNumber - 1) * 7;
          endDay = startDay + 6;
          weekStart = newDateYearDay env year startDay;
          weekEnd = newDateYearDay env year endDay
      in formatDate env weekStart @ ''-'' @ formatDate env weekEnd)"

section \<open>The pivot of the forecast table\<close>

text \<open>
  Of a forecast record the pivot reads four fields; the other fields of the interface
  \<^verbatim>\<open>ForecastRecord\<close> do not reach it.
\<close>

record ForecastRecord =
  site_id :: string
  mh_brick :: "string option"
  forecast_week :: string
  predicted_qty :: rat

record pivot_row =
  row_mh_brick :: string
  row_site_id :: string
  row_weeks :: numObject
  row_pageId :: string

record week_column =
  week :: string
  dateRange :: string

record pivot =
  rows :: "pivot_row list"
  weeks :: "week_column list"

text \<open>A \<^verbatim>\<open>Map\<close> from key strings to rows, in insertion order.\<close>

type_synonym rowsMap = "(string \<times> pivot_row) list"

definition mapHas :: "rowsMap \<Rightarrow> string \<Rightarrow> bool" where
  "mapHas m k = (map_of m k \<noteq> None)"

definition mapGet :: "rowsMap \<Rightarrow> string \<Rightarrow> pivot_row option" where
  "mapGet m k = map_of m k"

definition mapSet :: "rowsMap \<Rightarrow> string \<Rightarrow> pivot_row \<Rightarrow> rowsMap" where
  "mapSet m k row = AList.update k row m"

text \<open>The loop \<^verbatim>\<open>for (let i = 4; i >= 0; i--) last5Weeks.push(currentWeek - i)\<close>.\<close>

function pushWeeks :: "int \<Rightarrow> int \<Rightarrow> int list \<Rightarrow> int list" where
  "pushWeeks currentWeek i acc =
     (if i \<ge> 0 then pushWeeks currentWeek (i - 1) (acc @ [currentWeek - i]) else acc)"
  by pat_completeness auto
termination
  by (relation "measure (\<lambda>(c, i, acc). nat (i + 1))") auto

declare pushWeeks.simps [simp del]

definition currentWeek :: "runtime \<Rightarrow> int" where
  "currentWeek env = weekOfTime env (now env)"

definition last5Weeks :: "runtime \<Rightarrow> int list" where
  "last5Weeks env = pushWeeks (currentWeek env) 4 []"

text \<open>
  \<^verbatim>\<open>last5WeeksSet.has(weekNumber)\<close>: the set holds the five numbers of the window, so
  \<^verbatim>\<open>NaN\<close> is not a member.
\<close>

definition setHas :: "int list \<Rightarrow> int option \<Rightarrow> bool" where
  "setHas ws weekNumber = (case weekNumber of None \<Rightarrow> False | Some w \<Rightarrow> w \<in> set ws)"

definition brickOrUnknown :: "string option \<Rightarrow> string" where
  "brickOrUnknown b = (case b of None \<Rightarrow> ''Unknown'' | Some s \<Rightarrow> if s = [] then ''Unknown'' else s)"

definition rowKey :: "ForecastRecord \<Rightarrow> string" where
  "rowKey record = brickOrUnknown (mh_brick record) @ ''-'' @ site_id record"

definition weekLabel :: "int \<Rightarrow> string" where
  "weekLabel weekNum = ''Week '' @ showInt weekNum"

definition pageIdOf :: "int \<Rightarrow> string \<Rightarrow> string" where
  "pageIdOf page key = showInt page @ ''-'' @ key"

definition initialWeeks :: "int list \<Rightarrow> numObject" where
  "initialWeeks ws = foldl (\<lambda>obj weekNum. objSet obj (weekLabel weekNum) 0) [] ws"

text \<open>
  The body of \<^verbatim>\<open>data.forEach\<close>. The row fetched by \<^verbatim>\<open>rowsMap.get(key)\<close> is in the map
  by then, and the assignment to its \<^verbatim>\<open>weeks\<close> changes the row held by the map.
\<close>

definition pivotStep :: "runtime \<Rightarrow> int \<Rightarrow> int list \<Rightarrow> rowsMap \<Rightarrow> ForecastRecord \<Rightarrow> rowsMap" where
  "pivotStep env page ws rowsMap record =
     (let weekDate = newDate env (forecast_week record);
          weekNumber = getWeekNumber env weekDate
      in case weekNumber of
           None \<Rightarrow> rowsMap
         | Some wn \<Rightarrow>
             if \<not> setHas ws weekNumber then rowsMap
             else
               (let key = rowKey record;
                    label = weekLabel wn;
                    rowsMap1 =
                      (if \<not> mapHas rowsMap key
                       then mapSet rowsMap key
                              \<lparr>row_mh_brick = brickOrUnknown (mh_brick record),
                               row_site_id = site_id record,
                               row_weeks = initialWeeks ws,
                               row_pageId = pageIdOf page key\<rparr>
                       else rowsMap)
                in case mapGet rowsMap1 key of
                     None \<Rightarrow> rowsMap1
                   | Some row \<Rightarrow>
                       mapSet rowsMap1 key
                         (row\<lparr>row_weeks := objSet (row_weeks row) label (orZero (predicted_qty record))\<rparr>)))"

definition buildRowsMap :: "runtime \<Rightarrow> int \<Rightarrow> ForecastRecord list \<Rightarrow> rowsMap" where
  "buildRowsMap env page data = foldl (pivotStep env page (last5Weeks env)) [] data"

definition completeWeeks :: "int list \<Rightarrow> numObject \<Rightarrow> numObject" where
  "completeWeeks ws rowWeeks =
     foldl (\<lambda>obj weekNum.
              objSet obj (weekLabel weekNum)
                (case objGet rowWeeks (weekLabel weekNum) of None \<Rightarrow> 0 | Some v \<Rightarrow> orZero v))
           [] ws"

definition completeRow :: "int list \<Rightarrow> pivot_row \<Rightarrow> pivot_row" where
  "completeRow ws row = row\<lparr>row_weeks := completeWeeks ws (row_weeks row)\<rparr>"

text \<open>
  \<^verbatim>\<open>pivotData\<close>. Its inputs are the records of the current response (\<open>None\<close> while
  there is no response), the page number, and the clock, which it reads itself.
\<close>

definition pivotData :: "runtime \<Rightarrow> int \<Rightarrow> ForecastRecord list option \<Rightarrow> pivot" where
  "pivotData env page sourceData =
     (case sourceData of
        None \<Rightarrow> \<lparr>rows = [], weeks = []\<rparr>
      | Some data \<Rightarrow>
          (let currentYear = getFullYear env (now env);
               ws = last5Weeks env;
               rowsMap = buildRowsMap env page data;
               weeksWithDates =
                 map (\<lambda>weekNum. \<lparr>week = weekLabel weekNum,
                                  dateRange = getWeekDateRange env weekNum currentYear\<rparr>) ws
           in \<lparr>rows = map (completeRow ws) (map snd rowsMap), weeks = weeksWithDates\<rparr>))"

text \<open>
  Notions used to state the properties of the pivot. The week number of a record is
  the one the loop computes for it; a record survives when that number lies in the
  window from \<open>currentWeek - 4\<close> to \<open>currentWeek\<close>. The row a record writes to is the
  one the loop fetches under the record's key, as it stands in the output.
\<close>

definition weekNumberOf :: "runtime \<Rightarrow> ForecastRecord \<Rightarrow> int option" where
  "weekNumberOf env record = getWeekNumber env (newDate env (forecast_week record))"

definition inWindow :: "runtime \<Rightarrow> ForecastRecord \<Rightarrow> bool" where
  "inWindow env record =
     (case weekNumberOf env record of
        None \<Rightarrow> False
      | Some w \<Rightarrow> currentWeek env - 4 \<le> w \<and> w \<le> currentWeek env)"

definition targetRow :: "runtime \<Rightarrow> int \<Rightarrow> ForecastRecord list \<Rightarrow> ForecastRecord \<Rightarrow> pivot_row option" where
  "targetRow env page data record =
     (if inWindow env record
      then map_option (completeRow (last5Weeks env))
             (mapGet (buildRowsMap env page data) (rowKey record))
      else None)"

text \<open>The cell of the output that belongs to a record's row and week.\<close>

definition cellFor :: "runtime \<Rightarrow> int \<Rightarrow> ForecastRecord list \<Rightarrow> ForecastRecord \<Rightarrow> rat option" where
  "cellFor env page data record =
     (case (targetRow env page data record, weekNumberOf env record) of
        (Some row, Some w) \<Rightarrow> objGet (row_weeks row) (weekLabel w)
      | _ \<Rightarrow> None)"

text \<open>
  Two readings of "the same group". The table defaults the brick with \<^verbatim>\<open>||\<close>, which
  also replaces the empty string; the specification writes \<^verbatim>\<open>??\<close>, which replaces
  only a missing brick.
\<close>

definition sameGroup :: "ForecastRecord \<Rightarrow> ForecastRecord \<Rightarrow> bool" where
  "sameGroup r r' \<longleftrightarrow>
     brickOrUnknown (mh_brick r) = brickOrUnknown (mh_brick r') \<and> site_id r = site_id r'"

definition nullishBrick :: "string option \<Rightarrow> string" where
  "nullishBrick b = (case b of None \<Rightarrow> ''Unknown'' | Some s \<Rightarrow> s)"

definition sameGroupNullish :: "ForecastRecord \<Rightarrow> ForecastRecord \<Rightarrow> bool" where
  "sameGroupNullish r r' \<longleftrightarrow>
     nullishBrick (mh_brick r) = nullishBrick (mh_brick r') \<and> site_id r = site_id r'"

text \<open>The surviving records of a record's group and week, in input order.\<close>

definition groupWeek :: "runtime \<Rightarrow> ForecastRecord list \<Rightarrow> ForecastRecord \<Rightarrow> ForecastRecord list" where
  "groupWeek env data record =
     filter (\<lambda>r'. inWindow env r' \<and> sameGroup r' record \<and>
                   weekNumberOf env r' = weekNumberOf env record) data"

definition groupWeekNullish :: "runtime \<Rightarrow> ForecastRecord list \<Rightarrow> ForecastRecord \<Rightarrow> ForecastRecord list" where
  "groupWeekNullish env data record =
     filter (\<lambda>r'. inWindow env r' \<and> sameGroupNullish r' record \<and>
                   weekNumberOf env r' = weekNumberOf env record) data"

definition hyphenFree :: "ForecastRecord \<Rightarrow> bool" where
  "hyphenFree record \<longleftrightarrow> CHR ''-'' \<notin> set (brickOrUnknown (mh_brick record))"

text \<open>What a row shows apart from its page tag.\<close>

definition rowContent :: "pivot_row \<Rightarrow> string \<times> string \<times> numObject" where
  "rowContent row = (row_mh_brick row, row_site_id row, row_weeks row)"

text \<open>
  The records of the input that belong to the group a row shows, its brick and site,
  and fall in week \<open>w\<close>.
\<close>

definition recordsOfRow :: "runtime \<Rightarrow> ForecastRecord list \<Rightarrow> pivot_row \<Rightarrow> int \<Rightarrow> ForecastRecord list" where
  "recordsOfRow env data row w =
     filter (\<lambda>r. brickOrUnknown (mh_brick r) = row_mh_brick row \<and> site_id r = row_site_id row \<and>
                  weekNumberOf env r = Some w) data"

text \<open>The records of one key and one week, in input order, and the cell they leave.\<close>

definition hits :: "runtime \<Rightarrow> string \<Rightarrow> int \<Rightarrow> ForecastRecord list \<Rightarrow> ForecastRecord list" where
  "hits env k w data = filter (\<lambda>r. rowKey r = k \<and> weekNumberOf env r = Some w) data"

definition cellOf :: "runtime \<Rightarrow> string \<Rightarrow> int \<Rightarrow> ForecastRecord list \<Rightarrow> rat" where
  "cellOf env k w data = (if hits env k w data = [] then 0 else predicted_qty (last (hits env k w data)))"

text \<open>The row the loop body holds once the key is in the map.\<close>

definition baseRow :: "runtime \<Rightarrow> int \<Rightarrow> rowsMap \<Rightarrow> ForecastRecord \<Rightarrow> pivot_row" where
  "baseRow env page m record =
     (case map_of m (rowKey record) of
        None \<Rightarrow> \<lparr>row_mh_brick = brickOrUnknown (mh_brick record), row_site_id = site_id record,
                  row_weeks = initialWeeks (last5Weeks env),
                  row_pageId = pageIdOf page (rowKey record)\<rparr>
      | Some row \<Rightarrow> row)"

text \<open>What holds of the row under key \<open>k\<close> after the loop has consumed \<open>xs\<close>.\<close>

definition rowInv :: "runtime \<Rightarrow> int \<Rightarrow> ForecastRecord list \<Rightarrow> string \<Rightarrow> pivot_row \<Rightarrow> bool" where
  "rowInv env page xs k row \<longleftrightarrow>
     row_pageId row = pageIdOf page k \<and>
     map fst (row_weeks row) = map weekLabel (last5Weeks env) \<and>
     (\<forall>w\<in>set (last5Weeks env). map_of (row_weeks row) (weekLabel w) = Some (cellOf env k w xs)) \<and>
     (\<exists>r\<in>set xs. inWindow env r \<and> rowKey r = k \<and>
        row_mh_brick row = brickOrUnknown (mh_brick r) \<and> row_site_id row = site_id r)"

text \<open>
  A runtime and records for evaluating the pivot: the clock stands at Thursday
  14 March 2024, 00:00 UTC, local time is UTC, and the date strings are read as the
  engine reads ISO dates (midnight UTC); any other string here is an invalid date.
\<close>

definition marchDates :: "(string \<times> int) list" where
  "marchDates =
     [(''2024-03-11'', 1710115200000), (''2024-03-04'', 1709510400000),
      (''2024-01-01'', 1704067200000)]"

definition marchEnv :: runtime where
  "marchEnv = \<lparr>now = 1710374400000, parseDate = map_of marchDates, tzOffset = 0\<rparr>"

definition rec :: "string option \<Rightarrow> string \<Rightarrow> string \<Rightarrow> rat \<Rightarrow> ForecastRecord" where
  "rec brick site weekStr qty =
     \<lparr>site_id = site, mh_brick = brick, forecast_week = weekStr, predicted_qty = qty\<rparr>"

text \<open>The row \<open>row\<close> as it would be tagged on page \<open>p\<close> under key \<open>k\<close>.\<close>

definition retag :: "int \<Rightarrow> string \<Rightarrow> pivot_row \<Rightarrow> pivot_row" where
  "retag p k row = row\<lparr>row_pageId := pageIdOf p k\<rparr>"

text \<open>Reading a printed number back, to tell printed numbers apart.\<close>

definition readNat :: "string \<Rightarrow> nat" where
  "readNat s = foldl (\<lambda>a c. 10 * a + (of_char c - 48)) 0 s"

section \<open>The query layer\<close>

subsection \<open>Query keys\<close>

text \<open>
  A query key is an array of strings and parameter objects. The values that occur in
  the parameter objects are strings and numbers.
\<close>

datatype jsval = JStr string | JNum rat | JObj "(string \<times> jsval) list"

type_synonym jsobject = "(string \<times> jsval) list"

definition truthy :: "jsval \<Rightarrow> bool" where
  "truthy v = (case v of JStr s \<Rightarrow> s \<noteq> [] | JNum n \<Rightarrow> n \<noteq> 0 | JObj props \<Rightarrow> True)"

definition forecastKeys_all :: "jsval list" where
  "forecastKeys_all = [JStr ''forecast'']"

definition forecastKeys_lists :: "jsval list" where
  "forecastKeys_lists = forecastKeys_all @ [JStr ''list'']"

definition forecastKeys_list :: "jsobject \<Rightarrow> jsval list" where
  "forecastKeys_list params = forecastKeys_lists @ [JObj params]"

definition forecastKeys_summary :: "jsobject \<Rightarrow> jsval list" where
  "forecastKeys_summary params = forecastKeys_all @ [JStr ''summary'', JObj params]"

text \<open>
  The filter state of the table: one field for each \<^verbatim>\<open>useState\<close> cell that reaches a
  query key. The two range filters and the date range are objects with optional
  properties.
\<close>

record FilterState =
  searchTerm :: string
  zoneFilter :: string
  stateFilter :: string
  cityFilter :: string
  storeFilter :: string
  formatFilter :: string
  brandFilter :: string
  dateRangeFilter_start :: "string option"
  dateRangeFilter_end :: "string option"
  quantityRangeFilter_min :: "rat option"
  quantityRangeFilter_max :: "rat option"
  dateRange_start_date :: "string option"
  dateRange_end_date :: "string option"
  limitState :: int
  pageState :: int

text \<open>\<^verbatim>\<open>if (s) filters.k = s\<close> for a string, and for an optional string.\<close>

definition setIfNonEmpty :: "string \<Rightarrow> string \<Rightarrow> jsobject \<Rightarrow> jsobject" where
  "setIfNonEmpty k s filters = (if s \<noteq> [] then AList.update k (JStr s) filters else filters)"

definition setIfTruthyOpt :: "string \<Rightarrow> string option \<Rightarrow> jsobject \<Rightarrow> jsobject" where
  "setIfTruthyOpt k so filters =
     (case so of None \<Rightarrow> filters | Some s \<Rightarrow> setIfNonEmpty k s filters)"

text \<open>\<^verbatim>\<open>if (x !== undefined) filters.k = x\<close> for an optional number.\<close>

definition setIfDefinedNum :: "string \<Rightarrow> rat option \<Rightarrow> jsobject \<Rightarrow> jsobject" where
  "setIfDefinedNum k xo filters =
     (case xo of None \<Rightarrow> filters | Some x \<Rightarrow> AList.update k (JNum x) filters)"

definition activeFilters :: "FilterState \<Rightarrow> jsobject" where
  "activeFilters s =
     (setIfDefinedNum ''max_predicted_qty'' (quantityRangeFilter_max s)
     (setIfDefinedNum ''min_predicted_qty'' (quantityRangeFilter_min s)
     (setIfTruthyOpt ''end_date'' (dateRangeFilter_end s)
     (setIfTruthyOpt ''start_date'' (dateRangeFilter_start s)
     (setIfNonEmpty ''brand'' (brandFilter s)
     (setIfNonEmpty ''format'' (formatFilter s)
     (setIfNonEmpty ''site_id'' (storeFilter s)
     (setIfNonEmpty ''city'' (cityFilter s)
     (setIfNonEmpty ''state'' (stateFilter s)
     (setIfNonEmpty ''zone'' (zoneFilter s)
     (setIfNonEmpty ''search_term'' (searchTerm s)
       [(''limit'', JNum (of_int (limitState s))),
        (''offset'', JNum (of_int ((pageState s - 1) * limitState s)))])))))))))))"

text \<open>
  \<^verbatim>\<open>useSmartFilteredForecastData\<close> copies the filters into the parameters of the
  forecast endpoint: \<^verbatim>\<open>if (filters.k) params.k = filters.k\<close>, or with
  \<^verbatim>\<open>!== undefined\<close> for the two quantity bounds and the offset.
\<close>

definition copyIfTruthy :: "jsobject \<Rightarrow> string \<Rightarrow> jsobject \<Rightarrow> jsobject" where
  "copyIfTruthy filters k params =
     (case map_of filters k of
        None \<Rightarrow> params
      | Some v \<Rightarrow> if truthy v then AList.update k v params else params)"

definition copyIfDefined :: "jsobject \<Rightarrow> string \<Rightarrow> jsobject \<Rightarrow> jsobject" where
  "copyIfDefined filters k params =
     (case map_of filters k of None \<Rightarrow> params | Some v \<Rightarrow> AList.update k v params)"

definition forecastParams :: "jsobject \<Rightarrow> jsobject" where
  "forecastParams filters =
     (copyIfDefined filters ''offset''
     (copyIfTruthy filters ''limit''
     (copyIfDefined filters ''max_predicted_qty''
     (copyIfDefined filters ''min_predicted_qty''
     (copyIfTruthy filters ''end_date''
     (copyIfTruthy filters ''start_date''
     (copyIfTruthy filters ''brand''
     (copyIfTruthy filters ''mh_brick''
     (copyIfTruthy filters ''format''
     (copyIfTruthy filters ''site_id''
     (copyIfTruthy filters ''city''
     (copyIfTruthy filters ''state''
     (copyIfTruthy filters ''zone''
     (copyIfTruthy filters ''search_term'' []))))))))))))))"

definition smartFilteredKey :: "FilterState \<Rightarrow> jsval list" where
  "smartFilteredKey s = forecastKeys_list (forecastParams (activeFilters s))"

text \<open>
  The object \<^verbatim>\<open>{ mh_brick, ...dateRange, limit, offset }\<close> of
  \<^verbatim>\<open>useForecastDataWithBrick\<close>, and \<^verbatim>\<open>{ mh_brick, ...dateRange }\<close> of its summary query.
\<close>

definition spreadDateRange :: "string option \<Rightarrow> string option \<Rightarrow> jsobject \<Rightarrow> jsobject" where
  "spreadDateRange start_date end_date obj =
     (let obj1 = (case start_date of None \<Rightarrow> obj | Some d \<Rightarrow> AList.update ''start_date'' (JStr d) obj)
      in case end_date of None \<Rightarrow> obj1 | Some d \<Rightarrow> AList.update ''end_date'' (JStr d) obj1)"

definition brickParams :: "string \<Rightarrow> string option \<Rightarrow> string option \<Rightarrow> int \<Rightarrow> int \<Rightarrow> jsobject" where
  "brickParams brick start_date end_date perPage offset =
     AList.update ''offset'' (JNum (of_int offset))
       (AList.update ''limit'' (JNum (of_int perPage))
          (spreadDateRange start_date end_date [(''mh_brick'', JStr brick)]))"

definition regularKey :: "FilterState \<Rightarrow> jsval list" where
  "regularKey s =
     forecastKeys_list
       (brickParams [] (dateRange_start_date s) (dateRange_end_date s) (limitState s)
          ((pageState s - 1) * limitState s))"

definition regularSummaryKey :: "FilterState \<Rightarrow> jsval list" where
  "regularSummaryKey s =
     forecastKeys_summary
       (spreadDateRange (dateRange_start_date s) (dateRange_end_date s) [(''mh_brick'', JStr [])])"

text \<open>The filter state the component starts in.\<close>

definition initialFilterState :: FilterState where
  "initialFilterState =
     \<lparr>searchTerm = [], zoneFilter = [], stateFilter = [], cityFilter = [],
      storeFilter = [], formatFilter = [], brandFilter = [],
      dateRangeFilter_start = None, dateRangeFilter_end = None,
      quantityRangeFilter_min = None, quantityRangeFilter_max = None,
      dateRange_start_date = None, dateRange_end_date = None,
      limitState = 50, pageState = 1\<rparr>"

subsection \<open>Pagination of \<^verbatim>\<open>useForecastDataWithBrick\<close>\<close>

record ForecastResponse =
  resp_data :: "ForecastRecord list"
  total_records :: int
  resp_page :: int
  page_size :: int
  has_next :: bool

text \<open>
  The hook reads \<^verbatim>\<open>forecastQuery.data?.total_pages\<close>. The interface
  \<^verbatim>\<open>ForecastResponse\<close> declares no such property, so on a value of the interface, and
  while there is no data, the read yields \<^verbatim>\<open>undefined\<close>.
\<close>

definition total_pages :: "ForecastResponse option \<Rightarrow> rat option" where
  "total_pages queryData = (case queryData of None \<Rightarrow> None | Some response \<Rightarrow> None)"

definition totalPages :: "ForecastResponse option \<Rightarrow> rat" where
  "totalPages queryData =
     (case total_pages queryData of None \<Rightarrow> 1 | Some n \<Rightarrow> if n = 0 then 1 else n)"

definition hasNextPage :: "ForecastResponse option \<Rightarrow> int \<Rightarrow> bool" where
  "hasNextPage queryData pg = (of_int pg < totalPages queryData)"

definition hasPreviousPage :: "int \<Rightarrow> bool" where
  "hasPreviousPage pg = (pg > 1)"

text \<open>
  \<^verbatim>\<open>prefetchNextPage\<close>, as the list of query keys it hands to
  \<^verbatim>\<open>queryClient.prefetchQuery\<close>.
\<close>

definition prefetchNextPage ::
  "ForecastResponse option \<Rightarrow> string \<Rightarrow> string option \<Rightarrow> string option \<Rightarrow> int \<Rightarrow> int \<Rightarrow> bool
     \<Rightarrow> jsval list list" where
  "prefetchNextPage queryData brick start_date end_date perPage pg enabled =
     (if hasNextPage queryData pg \<and> enabled
      then (let nextOffset = pg * perPage
            in [forecastKeys_list (brickParams brick start_date end_date perPage nextOffset)])
      else [])"

subsection \<open>Retrying a failed fetch\<close>

text \<open>
  A call of the HTTP client fails with an error that carries the status of the
  response, if there was one, and a message. Most methods of \<^verbatim>\<open>ForecastService\<close>, among
  them \<^verbatim>\<open>getForecastData\<close> and \<^verbatim>\<open>checkHealth\<close>, catch it and throw a new error that keeps
  the message only; the three methods for unique bricks, brands and sites throw the
  client's error again.
\<close>

record axios_error =
  status :: "nat option"
  message :: string

datatype js_error = JsError string | Rethrown axios_error

definition getForecastData :: "axios_error + 'a \<Rightarrow> js_error + 'a" where
  "getForecastData response =
     (case response of
        Inl error \<Rightarrow> Inl (JsError (''Failed to fetch forecast data: '' @ message error))
      | Inr body \<Rightarrow> Inr body)"

definition checkHealth :: "axios_error + 'a \<Rightarrow> js_error + 'a" where
  "checkHealth response =
     (case response of
        Inl error \<Rightarrow> Inl (JsError (''Health check failed: '' @ message error))
      | Inr body \<Rightarrow> Inr body)"

definition getUniqueBricks :: "axios_error + 'a \<Rightarrow> js_error + 'a" where
  "getUniqueBricks response =
     (case response of Inl error \<Rightarrow> Inl (Rethrown error) | Inr body \<Rightarrow> Inr body)"

text \<open>
  The options \<^verbatim>\<open>retry\<close> and \<^verbatim>\<open>retryDelay\<close> of a query. The query library accepts a
  flag, a count or a predicate on the failure count and the error for \<^verbatim>\<open>retry\<close>, and a
  number of milliseconds or a function for \<^verbatim>\<open>retryDelay\<close>. A hook may leave either
  option out; the default of the query client then applies.
\<close>

datatype retry_option = RetryFlag bool | RetryCount nat | RetryWhen "nat \<Rightarrow> js_error \<Rightarrow> bool"

datatype delay_option = DelayMs nat | DelayOf "nat \<Rightarrow> js_error \<Rightarrow> nat"

record query_options =
  retry :: retry_option
  retryDelay :: delay_option

record hook_options =
  hook_retry :: "retry_option option"
  hook_retryDelay :: "delay_option option"

definition queryClient_defaultOptions :: query_options where
  "queryClient_defaultOptions = \<lparr>retry = RetryCount 1, retryDelay = DelayMs 2000\<rparr>"

definition withDefaults :: "hook_options \<Rightarrow> query_options" where
  "withDefaults h =
     \<lparr>retry = (case hook_retry h of None \<Rightarrow> retry queryClient_defaultOptions | Some r \<Rightarrow> r),
      retryDelay =
        (case hook_retryDelay h of None \<Rightarrow> retryDelay queryClient_defaultOptions | Some d \<Rightarrow> d)\<rparr>"

text \<open>
  The options of the hooks of \<^verbatim>\<open>useForecastData.ts\<close>. Seven hooks set both options to
  1 and 2000 or leave the delay to the default; the health check sets 2 and 1000; the
  prefetch of the next page sets neither.
\<close>

definition useForecastData_options :: query_options where
  "useForecastData_options =
     withDefaults \<lparr>hook_retry = Some (RetryCount 1), hook_retryDelay = Some (DelayMs 2000)\<rparr>"

definition useForecastDataByBrick_options :: query_options where
  "useForecastDataByBrick_options =
     withDefaults \<lparr>hook_retry = Some (RetryCount 1), hook_retryDelay = Some (DelayMs 2000)\<rparr>"

definition useForecastSummary_options :: query_options where
  "useForecastSummary_options =
     withDefaults \<lparr>hook_retry = Some (RetryCount 1), hook_retryDelay = None\<rparr>"

definition useUniqueValues_options :: query_options where
  "useUniqueValues_options =
     withDefaults \<lparr>hook_retry = Some (RetryCount 1), hook_retryDelay = None\<rparr>"

definition useUniqueBricks_options :: query_options where
  "useUniqueBricks_options =
     withDefaults \<lparr>hook_retry = Some (RetryCount 1), hook_retryDelay = None\<rparr>"

definition useUniqueBrands_options :: query_options where
  "useUniqueBrands_options =
     withDefaults \<lparr>hook_retry = Some (RetryCount 1), hook_retryDelay = None\<rparr>"

definition useUniqueSites_options :: query_options where
  "useUniqueSites_options =
     withDefaults \<lparr>hook_retry = Some (RetryCount 1), hook_retryDelay = None\<rparr>"

definition useHealthCheck_options :: query_options where
  "useHealthCheck_options =
     withDefaults \<lparr>hook_retry = Some (RetryCount 2), hook_retryDelay = Some (DelayMs 1000)\<rparr>"

definition useForecastMetadata_options :: query_options where
  "useForecastMetadata_options =
     withDefaults \<lparr>hook_retry = Some (RetryCount 1), hook_retryDelay = None\<rparr>"

definition useFilteredForecastData_options :: query_options where
  "useFilteredForecastData_options =
     withDefaults \<lparr>hook_retry = Some (RetryCount 1), hook_retryDelay = Some (DelayMs 2000)\<rparr>"

definition useSimpleFilteredForecastData_options :: query_options where
  "useSimpleFilteredForecastData_options =
     withDefaults \<lparr>hook_retry = Some (RetryCount 1), hook_retryDelay = Some (DelayMs 2000)\<rparr>"

definition useSmartFilteredForecastData_options :: query_options where
  "useSmartFilteredForecastData_options =
     withDefaults \<lparr>hook_retry = Some (RetryCount 1), hook_retryDelay = Some (DelayMs 2000)\<rparr>"

definition useAllForecastData_options :: query_options where
  "useAllForecastData_options =
     withDefaults \<lparr>hook_retry = Some (RetryCount 1), hook_retryDelay = None\<rparr>"

definition prefetchQuery_options :: query_options where
  "prefetchQuery_options = withDefaults \<lparr>hook_retry = None, hook_retryDelay = None\<rparr>"

definition queryLayerOptions :: "query_options list" where
  "queryLayerOptions =
     [useForecastData_options, useForecastDataByBrick_options, useForecastSummary_options,
      useUniqueValues_options, useUniqueBricks_options, useUniqueBrands_options,
      useUniqueSites_options, useHealthCheck_options, useForecastMetadata_options,
      useFilteredForecastData_options, useSimpleFilteredForecastData_options,
      useSmartFilteredForecastData_options, useAllForecastData_options,
      prefetchQuery_options]"

text \<open>
  The retry rule is the library's, not the repository's; it is written here as the
  library documents it. After a failure the query is run again when \<^verbatim>\<open>retry\<close> is
  \<^verbatim>\<open>true\<close>, or a number above the count of failures so far, or a predicate that
  holds of that count and the error; the wait before the next run is \<^verbatim>\<open>retryDelay\<close>.
\<close>

definition shouldRetry :: "retry_option \<Rightarrow> nat \<Rightarrow> js_error \<Rightarrow> bool" where
  "shouldRetry r failureCount error =
     (case r of
        RetryFlag b \<Rightarrow> b
      | RetryCount n \<Rightarrow> failureCount < n
      | RetryWhen p \<Rightarrow> p failureCount error)"

definition delayFor :: "delay_option \<Rightarrow> nat \<Rightarrow> js_error \<Rightarrow> nat" where
  "delayFor d failureCount error =
     (case d of DelayMs ms \<Rightarrow> ms | DelayOf f \<Rightarrow> f failureCount error)"

text \<open>
  One fetch of a query against the outcomes of the successive calls of its query
  function: the waits made between the calls, and the outcome (\<open>None\<close> when the list
  of outcomes ends before the fetch has settled).
\<close>

fun runQuery ::
  "query_options \<Rightarrow> nat \<Rightarrow> (js_error + 'a) list \<Rightarrow> nat list \<times> (js_error + 'a) option" where
  "runQuery opts failureCount [] = ([], None)"
| "runQuery opts failureCount (result # later) =
     (case result of
        Inr body \<Rightarrow> ([], Some (Inr body))
      | Inl error \<Rightarrow>
          if shouldRetry (retry opts) failureCount error
          then (let (waits, outcome) = runQuery opts (Suc failureCount) later
                in (delayFor (retryDelay opts) failureCount error # waits, outcome))
          else ([], Some (Inl error)))"

definition notFound :: axios_error where
  "notFound = \<lparr>status = Some 404, message = ''Request failed with status code 404''\<rparr>"

definition serverError :: axios_error where
  "serverError = \<lparr>status = Some 500, message = ''Request failed with status code 500''\<rparr>"

definition networkError :: axios_error where
  "networkError = \<lparr>status = None, message = ''Network Error''\<rparr>"

subsection \<open>The query cache\<close>

text \<open>
  The engine holds the parameter object of a query key by reference: every evaluation
  of a key expression builds a new object, so two keys built from equal filter states
  are not the same value. The query library identifies a query by the hash of its key,
  which is the JSON text of the key with the property names of every object sorted.
  The hash is written here as the value that text denotes: the key with every
  reference replaced by its object, and the properties of every object in sorted order.
\<close>

fun precedes :: "string \<Rightarrow> string \<Rightarrow> bool" where
  "precedes [] ys = True"
| "precedes (x # xs) [] = False"
| "precedes (x # xs) (y # ys) =
     (if x = y then precedes xs ys else (of_char x :: nat) < of_char y)"

fun insertProp :: "string \<times> jsval \<Rightarrow> jsobject \<Rightarrow> jsobject" where
  "insertProp p [] = [p]"
| "insertProp p (q # qs) = (if precedes (fst p) (fst q) then p # q # qs else q # insertProp p qs)"

definition sortProps :: "jsobject \<Rightarrow> jsobject" where
  "sortProps props = foldr insertProp props []"

fun canonical :: "jsval \<Rightarrow> jsval" where
  "canonical (JStr s) = JStr s"
| "canonical (JNum n) = JNum n"
| "canonical (JObj props) = JObj (sortProps (map (\<lambda>p. (fst p, canonical (snd p))) props))"

datatype keyPart = KVal jsval | KRef nat

text \<open>
  Evaluating a key expression: strings and numbers are held by value, and every object
  of the key is a new object on the heap, held by its address.
\<close>

fun byReference :: "jsval list \<Rightarrow> jsobject list \<Rightarrow> keyPart list \<times> jsobject list" where
  "byReference [] heap = ([], heap)"
| "byReference (JObj obj # others) heap =
     (let (parts, heap') = byReference others (heap @ [obj])
      in (KRef (length heap) # parts, heap'))"
| "byReference (JStr s # others) heap =
     (let (parts, heap') = byReference others heap in (KVal (JStr s) # parts, heap'))"
| "byReference (JNum n # others) heap =
     (let (parts, heap') = byReference others heap in (KVal (JNum n) # parts, heap'))"

definition resolve :: "jsobject list \<Rightarrow> keyPart \<Rightarrow> jsval" where
  "resolve heap part =
     (case part of
        KVal v \<Rightarrow> canonical v
      | KRef a \<Rightarrow> if a < length heap then canonical (JObj (heap ! a)) else JStr ''null'')"

definition hashKey :: "jsobject list \<Rightarrow> keyPart list \<Rightarrow> jsval list" where
  "hashKey heap key = map (resolve heap) key"

text \<open>
  The client: the heap of parameter objects, the hashes of the queries that have an
  entry in the cache (fetched or in flight), and the network calls made so far. Within
  the freshness window of an entry, a query whose hash has an entry is served from it;
  an enabled query without an entry makes a network call and gets an entry; a disabled
  query does neither.
\<close>

record client =
  objects :: "jsobject list"
  fetched :: "jsval list list"
  requests :: "jsval list list"

definition useQuery :: "bool \<Rightarrow> jsval list \<Rightarrow> client \<Rightarrow> client" where
  "useQuery enabled queryKey cl =
     (let (key, heap) = byReference queryKey (objects cl);
          queryHash = hashKey heap key;
          cl1 = cl\<lparr>objects := heap\<rparr>
      in if enabled \<and> queryHash \<notin> set (fetched cl1)
         then cl1\<lparr>fetched := fetched cl1 @ [queryHash], requests := requests cl1 @ [queryHash]\<rparr>
         else cl1)"

text \<open>\<^verbatim>\<open>hasActiveFilters\<close>: the truthiness of the eleven filter values.\<close>

definition truthyString :: "string option \<Rightarrow> bool" where
  "truthyString so = (case so of None \<Rightarrow> False | Some s \<Rightarrow> s \<noteq> [])"

definition truthyNumber :: "rat option \<Rightarrow> bool" where
  "truthyNumber xo = (case xo of None \<Rightarrow> False | Some x \<Rightarrow> x \<noteq> 0)"

definition hasActiveFilters :: "FilterState \<Rightarrow> bool" where
  "hasActiveFilters s =
     (searchTerm s \<noteq> [] \<or> zoneFilter s \<noteq> [] \<or> stateFilter s \<noteq> [] \<or> cityFilter s \<noteq> [] \<or>
      storeFilter s \<noteq> [] \<or> formatFilter s \<noteq> [] \<or> brandFilter s \<noteq> [] \<or>
      truthyString (dateRangeFilter_start s) \<or> truthyString (dateRangeFilter_end s) \<or>
      truthyNumber (quantityRangeFilter_min s) \<or> truthyNumber (quantityRangeFilter_max s))"

text \<open>
  The three queries of a render of the table whose keys depend on the filter state:
  the filtered query, enabled when a filter is active, and the unfiltered query with
  its summary, enabled otherwise.
\<close>

definition renderQueries :: "FilterState \<Rightarrow> client \<Rightarrow> client" where
  "renderQueries s cl =
     useQuery (\<not> hasActiveFilters s) (regularSummaryKey s)
       (useQuery (\<not> hasActiveFilters s) (regularKey s)
          (useQuery (hasActiveFilters s) (smartFilteredKey s) cl))"


definition emptyClient :: client where
  "emptyClient = \<lparr>objects = [], fetched = [], requests = []\<rparr>"

section \<open>Properties of the pivot\<close>

lemma orZero_id [simp]: "orZero x = x"
  by (simp add: orZero_def)

lemma pushWeeks_stop: "i < 0 \<Longrightarrow> pushWeeks c i acc = acc"
  by (subst pushWeeks.simps) simp

lemma pushWeeks_go: "0 \<le> i \<Longrightarrow> pushWeeks c i acc = pushWeeks c (i - 1) (acc @ [c - i])"
  by (subst pushWeeks.simps) simp

lemma last5Weeks_eq:
  "last5Weeks env = [currentWeek env - 4, currentWeek env - 3, currentWeek env - 2,
                     currentWeek env - 1, currentWeek env]"
  by (simp add: last5Weeks_def pushWeeks_go pushWeeks_stop)

lemma setHas_window:
  "setHas (last5Weeks env) (Some w) \<longleftrightarrow> currentWeek env - 4 \<le> w \<and> w \<le> currentWeek env"
  by (auto simp: setHas_def last5Weeks_eq)

lemma in_last5Weeks:
  "w \<in> set (last5Weeks env) \<longleftrightarrow> currentWeek env - 4 \<le> w \<and> w \<le> currentWeek env"
  by (auto simp: last5Weeks_eq)

lemma distinct_last5Weeks: "distinct (last5Weeks env)"
  by (simp add: last5Weeks_eq)

lemma readNat_snoc: "readNat (s @ [c]) = 10 * readNat s + (of_char c - 48)"
  by (simp add: readNat_def)

lemma of_char_digitChar: "n < 10 \<Longrightarrow> of_char (digitChar n) = (48 + n :: nat)"
  by (simp add: digitChar_def)

lemma readNat_showNat: "readNat (showNat n) = n"
proof (induction n rule: showNat.induct)
  case (1 n)
  show ?case
  proof (cases "n < 10")
    case True
    then show ?thesis
      by (subst showNat.simps) (simp add: readNat_def of_char_digitChar)
  next
    case False
    with 1 show ?thesis
      by (subst showNat.simps) (simp add: readNat_snoc of_char_digitChar)
  qed
qed

lemma showNat_inj: "showNat m = showNat n \<Longrightarrow> m = n"
proof -
  assume "showNat m = showNat n"
  then have "readNat (showNat m) = readNat (showNat n)" by simp
  then show ?thesis by (simp add: readNat_showNat)
qed

lemma digitChar_not_minus: "n < 10 \<Longrightarrow> digitChar n \<noteq> CHR ''-''"
proof
  assume "n < 10" and "digitChar n = CHR ''-''"
  then have "(of_char (digitChar n) :: nat) = of_char (CHR ''-'')" by simp
  with \<open>n < 10\<close> show False by (simp add: of_char_digitChar)
qed

lemma hd_showNat: "hd (showNat n) \<noteq> CHR ''-'' \<and> showNat n \<noteq> []"
proof (induction n rule: showNat.induct)
  case (1 n)
  show ?case
  proof (cases "n < 10")
    case True
    then show ?thesis
      by (subst (1 2) showNat.simps) (simp add: digitChar_not_minus)
  next
    case False
    with 1 show ?thesis
      by (subst (1 2) showNat.simps) simp
  qed
qed

lemma showInt_inj: "showInt i = showInt j \<Longrightarrow> i = j"
proof -
  assume eq: "showInt i = showInt j"
  have neg_pos: False if "a < 0" "\<not> b < 0" "showInt a = showInt b" for a b
  proof -
    from that have "CHR ''-'' # showNat (nat (- a)) = showNat (nat b)"
      by (simp add: showInt_def)
    then have "hd (showNat (nat b)) = CHR ''-''"
      by (metis list.sel(1))
    with hd_showNat show False by blast
  qed
  show ?thesis
  proof (cases "i < 0")
    case True
    show ?thesis
    proof (cases "j < 0")
      case True
      with \<open>i < 0\<close> eq have "nat (- i) = nat (- j)"
        by (simp add: showInt_def showNat_inj)
      with True \<open>i < 0\<close> show ?thesis by simp
    next
      case False
      with neg_pos [OF \<open>i < 0\<close> False eq] show ?thesis by simp
    qed
  next
    case False
    show ?thesis
    proof (cases "j < 0")
      case True
      with neg_pos [OF True False] eq show ?thesis by simp
    next
      case jpos: False
      with False eq have "nat i = nat j"
        by (simp add: showInt_def showNat_inj)
      with False jpos show ?thesis by simp
    qed
  qed
qed

lemma weekLabel_inj [simp]: "weekLabel v = weekLabel w \<longleftrightarrow> v = w"
  by (auto simp: weekLabel_def dest: showInt_inj)

lemma pageIdOf_inj [simp]: "pageIdOf p k = pageIdOf p k' \<longleftrightarrow> k = k'"
  by (simp add: pageIdOf_def)

lemma takeWhile_hyphen:
  "CHR ''-'' \<notin> set a \<Longrightarrow> takeWhile (\<lambda>c. c \<noteq> CHR ''-'') (a @ CHR ''-'' # b) = a"
  by (induction a) auto

lemma split_at_hyphen:
  assumes "a @ CHR ''-'' # b = a' @ CHR ''-'' # b'"
    and "CHR ''-'' \<notin> set a" and "CHR ''-'' \<notin> set a'"
  shows "a = a' \<and> b = b'"
proof -
  have "takeWhile (\<lambda>c. c \<noteq> CHR ''-'') (a @ CHR ''-'' # b) = a"
    using assms(2) by (rule takeWhile_hyphen)
  moreover have "takeWhile (\<lambda>c. c \<noteq> CHR ''-'') (a' @ CHR ''-'' # b') = a'"
    using assms(3) by (rule takeWhile_hyphen)
  ultimately have "a = a'" using assms(1) by simp
  with assms(1) show ?thesis by simp
qed

lemma update_absent: "k \<notin> fst ` set al \<Longrightarrow> AList.update k v al = al @ [(k, v)]"
  by (induction al) auto

lemma foldl_update_fresh:
  "distinct (map f ws) \<Longrightarrow> f ` set ws \<inter> fst ` set acc = {} \<Longrightarrow>
   foldl (\<lambda>obj w. AList.update (f w) (g w) obj) acc ws = acc @ map (\<lambda>w. (f w, g w)) ws"
proof (induction ws arbitrary: acc)
  case Nil
  then show ?case by simp
next
  case (Cons w ws)
  from Cons.prems have fresh: "f w \<notin> fst ` set acc" by auto
  have "foldl (\<lambda>obj w. AList.update (f w) (g w) obj) (acc @ [(f w, g w)]) ws
        = (acc @ [(f w, g w)]) @ map (\<lambda>w. (f w, g w)) ws"
    using Cons.prems by (intro Cons.IH) auto
  with fresh show ?case by (simp add: update_absent)
qed

lemma distinct_labels: "distinct ws \<Longrightarrow> distinct (map weekLabel ws)"
  by (simp add: distinct_map inj_on_def)

lemma initialWeeks_eq: "distinct ws \<Longrightarrow> initialWeeks ws = map (\<lambda>w. (weekLabel w, 0)) ws"
  unfolding initialWeeks_def objSet_def
  using foldl_update_fresh [of weekLabel ws "[]" "\<lambda>w. 0"] by (simp add: distinct_labels)

lemma completeWeeks_eq:
  "distinct ws \<Longrightarrow>
   completeWeeks ws rw =
     map (\<lambda>w. (weekLabel w, case map_of rw (weekLabel w) of None \<Rightarrow> 0 | Some v \<Rightarrow> v)) ws"
  unfolding completeWeeks_def objSet_def objGet_def
  using foldl_update_fresh [of weekLabel ws "[]"
          "\<lambda>w. case map_of rw (weekLabel w) of None \<Rightarrow> 0 | Some v \<Rightarrow> orZero v"]
  by (simp add: distinct_labels split: option.split)

lemma inWindow_setHas:
  "inWindow env r \<longleftrightarrow> setHas (last5Weeks env) (weekNumberOf env r)"
  by (cases "weekNumberOf env r") (auto simp: inWindow_def setHas_def in_last5Weeks)

lemma inWindow_week:
  "inWindow env r \<longleftrightarrow> (\<exists>w. weekNumberOf env r = Some w \<and> w \<in> set (last5Weeks env))"
  by (cases "weekNumberOf env r") (auto simp: inWindow_def in_last5Weeks)

lemma pivotStep_skip:
  "\<not> inWindow env r \<Longrightarrow> pivotStep env page (last5Weeks env) m r = m"
  by (cases "weekNumberOf env r")
     (auto simp: pivotStep_def inWindow_setHas weekNumberOf_def Let_def)

lemma pivotStep_hit:
  assumes "weekNumberOf env r = Some w" and "w \<in> set (last5Weeks env)"
  shows "pivotStep env page (last5Weeks env) m r =
           AList.update (rowKey r)
             ((baseRow env page m r)
              \<lparr>row_weeks :=
                 AList.update (weekLabel w) (predicted_qty r) (row_weeks (baseRow env page m r))\<rparr>) m"
proof -
  from assms have wn: "getWeekNumber env (newDate env (forecast_week r)) = Some w"
    and has: "setHas (last5Weeks env) (Some w)"
    by (simp_all add: weekNumberOf_def setHas_def)
  show ?thesis
  proof (cases "map_of m (rowKey r)")
    case None
    then show ?thesis
      using wn has
      by (simp add: pivotStep_def Let_def mapHas_def mapGet_def mapSet_def objSet_def
                    update_conv' baseRow_def)
  next
    case (Some row)
    then show ?thesis
      using wn has
      by (simp add: pivotStep_def Let_def mapHas_def mapGet_def mapSet_def objSet_def
                    baseRow_def)
  qed
qed

lemma buildRowsMap_Nil [simp]: "buildRowsMap env page [] = []"
  by (simp add: buildRowsMap_def)

lemma buildRowsMap_snoc:
  "buildRowsMap env page (xs @ [x]) =
     pivotStep env page (last5Weeks env) (buildRowsMap env page xs) x"
  by (simp add: buildRowsMap_def)

lemma buildRowsMap_drop:
  assumes "\<not> inWindow env r"
  shows "buildRowsMap env page (xs @ r # ys) = buildRowsMap env page (xs @ ys)"
  using assms by (simp add: buildRowsMap_def pivotStep_skip)

lemma keys_buildRowsMap:
  "fst ` set (buildRowsMap env page xs) = rowKey ` {r \<in> set xs. inWindow env r}"
proof (induction xs rule: rev_induct)
  case Nil
  show ?case by simp
next
  case (snoc x xs)
  show ?case
  proof (cases "inWindow env x")
    case False
    with snoc show ?thesis
      by (auto simp: buildRowsMap_snoc pivotStep_skip)
  next
    case True
    then obtain w where w: "weekNumberOf env x = Some w" "w \<in> set (last5Weeks env)"
      by (auto simp: inWindow_week)
    have "{r \<in> set (xs @ [x]). inWindow env r} = insert x {r \<in> set xs. inWindow env r}"
      using True by auto
    with snoc show ?thesis
      by (simp add: buildRowsMap_snoc pivotStep_hit [OF w] dom_update)
  qed
qed

lemma distinct_buildRowsMap: "distinct (map fst (buildRowsMap env page xs))"
proof (induction xs rule: rev_induct)
  case Nil
  show ?case by simp
next
  case (snoc x xs)
  show ?case
  proof (cases "inWindow env x")
    case False
    with snoc show ?thesis
      by (simp add: buildRowsMap_snoc pivotStep_skip)
  next
    case True
    then obtain w where w: "weekNumberOf env x = Some w" "w \<in> set (last5Weeks env)"
      by (auto simp: inWindow_week)
    from snoc show ?thesis
      by (simp only: buildRowsMap_snoc pivotStep_hit [OF w] distinct_update)
  qed
qed

lemma hits_snoc:
  "hits env k w (xs @ [x]) =
     hits env k w xs @ (if rowKey x = k \<and> weekNumberOf env x = Some w then [x] else [])"
  by (simp add: hits_def)

lemma cellOf_snoc:
  "cellOf env k w (xs @ [x]) =
     (if rowKey x = k \<and> weekNumberOf env x = Some w then predicted_qty x else cellOf env k w xs)"
  by (simp add: cellOf_def hits_snoc)

lemma cellOf_no_key:
  assumes "k \<notin> fst ` set (buildRowsMap env page xs)" and "w \<in> set (last5Weeks env)"
  shows "cellOf env k w xs = 0"
proof -
  have "hits env k w xs = []"
  proof (rule ccontr)
    assume "hits env k w xs \<noteq> []"
    then obtain r where r: "r \<in> set xs" "rowKey r = k" "weekNumberOf env r = Some w"
      by (auto simp: hits_def filter_empty_conv)
    with assms(2) have "inWindow env r" by (auto simp: inWindow_week)
    with r have "k \<in> rowKey ` {r \<in> set xs. inWindow env r}" by auto
    with assms(1) show False by (simp add: keys_buildRowsMap)
  qed
  then show ?thesis by (simp add: cellOf_def)
qed

lemma map_of_labels:
  "distinct ws \<Longrightarrow> w \<in> set ws \<Longrightarrow> map_of (map (\<lambda>w. (weekLabel w, f w)) ws) (weekLabel w) = Some (f w)"
  by (induction ws) auto

lemma rowInv_skip:
  assumes "rowInv env page xs k row" and "\<not> inWindow env x"
  shows "rowInv env page (xs @ [x]) k row"
proof -
  have "cellOf env k w (xs @ [x]) = cellOf env k w xs" if "w \<in> set (last5Weeks env)" for w
    using that assms(2) by (auto simp: cellOf_snoc inWindow_week)
  with assms(1) show ?thesis
    by (auto simp: rowInv_def)
qed

lemma rowInv_other:
  assumes "rowInv env page xs k row" and "rowKey x \<noteq> k"
  shows "rowInv env page (xs @ [x]) k row"
  using assms by (auto simp: rowInv_def cellOf_snoc)

lemma rowInv_new:
  assumes w: "weekNumberOf env x = Some w0" "w0 \<in> set (last5Weeks env)"
    and fresh: "map_of (buildRowsMap env page xs) (rowKey x) = None"
  shows "rowInv env page (xs @ [x]) (rowKey x)
           ((baseRow env page (buildRowsMap env page xs) x)
            \<lparr>row_weeks := AList.update (weekLabel w0) (predicted_qty x)
                 (row_weeks (baseRow env page (buildRowsMap env page xs) x))\<rparr>)"
proof -
  let ?ws = "last5Weeks env"
  have base: "baseRow env page (buildRowsMap env page xs) x =
      \<lparr>row_mh_brick = brickOrUnknown (mh_brick x), row_site_id = site_id x,
       row_weeks = map (\<lambda>w. (weekLabel w, 0)) ?ws, row_pageId = pageIdOf page (rowKey x)\<rparr>"
    using fresh by (simp add: baseRow_def initialWeeks_eq distinct_last5Weeks)
  have nokey: "rowKey x \<notin> fst ` set (buildRowsMap env page xs)"
    using fresh by (simp add: map_of_eq_None_iff)
  have keys: "map fst (AList.update (weekLabel w0) (predicted_qty x) (map (\<lambda>w. (weekLabel w, 0)) ?ws))
              = map weekLabel ?ws"
    using w(2) by (simp add: update_keys comp_def)
  have cells: "map_of (AList.update (weekLabel w0) (predicted_qty x) (map (\<lambda>w. (weekLabel w, 0::rat)) ?ws))
                 (weekLabel w) = Some (cellOf env (rowKey x) w (xs @ [x]))"
    if "w \<in> set ?ws" for w
    using that w cellOf_no_key [OF nokey that]
      map_of_labels [OF distinct_last5Weeks that, of "\<lambda>w. 0::rat"]
    by (simp add: update_conv' cellOf_snoc)
  have inw: "inWindow env x" using w by (auto simp: inWindow_week)
  show ?thesis
    unfolding rowInv_def base using keys cells inw by simp
qed

lemma rowInv_old:
  assumes w: "weekNumberOf env x = Some w0" "w0 \<in> set (last5Weeks env)"
    and old: "rowInv env page xs (rowKey x) row"
  shows "rowInv env page (xs @ [x]) (rowKey x)
           (row\<lparr>row_weeks := AList.update (weekLabel w0) (predicted_qty x) (row_weeks row)\<rparr>)"
proof -
  let ?ws = "last5Weeks env"
  from old have k: "map fst (row_weeks row) = map weekLabel ?ws"
    by (simp add: rowInv_def)
  have keys: "map fst (AList.update (weekLabel w0) (predicted_qty x) (row_weeks row)) = map weekLabel ?ws"
    using w(2) k by (simp add: update_keys)
  have cells: "map_of (AList.update (weekLabel w0) (predicted_qty x) (row_weeks row)) (weekLabel w)
                 = Some (cellOf env (rowKey x) w (xs @ [x]))"
    if "w \<in> set ?ws" for w
    using that w old by (simp add: update_conv' cellOf_snoc rowInv_def)
  from old obtain r where "r \<in> set xs" "inWindow env r" "rowKey r = rowKey x"
     "row_mh_brick row = brickOrUnknown (mh_brick r)" "row_site_id row = site_id r"
    by (auto simp: rowInv_def)
  then have ex: "\<exists>r\<in>set (xs @ [x]). inWindow env r \<and> rowKey r = rowKey x \<and>
        row_mh_brick row = brickOrUnknown (mh_brick r) \<and> row_site_id row = site_id r"
    by auto
  from old have "row_pageId row = pageIdOf page (rowKey x)" by (simp add: rowInv_def)
  with keys cells ex show ?thesis
    unfolding rowInv_def by simp
qed

lemma rowInv_buildRowsMap:
  "map_of (buildRowsMap env page xs) k = Some row \<Longrightarrow> rowInv env page xs k row"
proof (induction xs arbitrary: k row rule: rev_induct)
  case Nil
  then show ?case by simp
next
  case (snoc x xs)
  let ?G = "buildRowsMap env page xs"
  show ?case
  proof (cases "inWindow env x")
    case False
    with snoc.prems have "map_of ?G k = Some row"
      by (simp add: buildRowsMap_snoc pivotStep_skip)
    then have "rowInv env page xs k row" by (rule snoc.IH)
    then show ?thesis using False by (rule rowInv_skip)
  next
    case True
    then obtain w0 where w: "weekNumberOf env x = Some w0" "w0 \<in> set (last5Weeks env)"
      by (auto simp: inWindow_week)
    let ?row' = "(baseRow env page ?G x)
            \<lparr>row_weeks := AList.update (weekLabel w0) (predicted_qty x)
                 (row_weeks (baseRow env page ?G x))\<rparr>"
    from snoc.prems have look: "(if k = rowKey x then Some ?row' else map_of ?G k) = Some row"
      by (simp add: buildRowsMap_snoc pivotStep_hit [OF w] update_conv')
    show ?thesis
    proof (cases "k = rowKey x")
      case False
      with look have "map_of ?G k = Some row" by simp
      then have "rowInv env page xs k row" by (rule snoc.IH)
      then show ?thesis using False by (intro rowInv_other) auto
    next
      case key: True
      with look have row: "row = ?row'" by simp
      show ?thesis
      proof (cases "map_of ?G (rowKey x)")
        case None
        from rowInv_new [OF w None] show ?thesis by (simp add: row key)
      next
        case (Some row0)
        then have "rowInv env page xs (rowKey x) row0" by (rule snoc.IH)
        from rowInv_old [OF w this] Some show ?thesis
          by (simp add: row key baseRow_def)
      qed
    qed
  qed
qed

lemma rows_pivotData:
  "rows (pivotData env page (Some data)) =
     map (completeRow (last5Weeks env)) (map snd (buildRowsMap env page data))"
  by (simp add: pivotData_def Let_def)

lemma weeks_pivotData:
  "weeks (pivotData env page (Some data)) =
     map (\<lambda>weekNum. \<lparr>week = weekLabel weekNum,
                      dateRange = getWeekDateRange env weekNum (getFullYear env (now env))\<rparr>)
         (last5Weeks env)"
  by (simp add: pivotData_def Let_def)

lemma pivotData_drop:
  "\<not> inWindow env r \<Longrightarrow>
   pivotData env page (Some (xs @ r # ys)) = pivotData env page (Some (xs @ ys))"
  by (simp add: pivotData_def buildRowsMap_drop)

lemma completeRow_inv:
  assumes "rowInv env page xs k row"
  shows "completeRow (last5Weeks env) row =
           row\<lparr>row_weeks := map (\<lambda>w. (weekLabel w, cellOf env k w xs)) (last5Weeks env)\<rparr>"
proof -
  have "map (\<lambda>w. (weekLabel w, case map_of (row_weeks row) (weekLabel w) of None \<Rightarrow> 0 | Some v \<Rightarrow> v))
            (last5Weeks env)
        = map (\<lambda>w. (weekLabel w, cellOf env k w xs)) (last5Weeks env)"
    using assms by (intro map_cong) (auto simp: rowInv_def)
  then show ?thesis
    by (simp add: completeRow_def completeWeeks_eq distinct_last5Weeks)
qed

lemma output_row_cases:
  assumes "R \<in> set (rows (pivotData env page (Some data)))"
  obtains k row where "map_of (buildRowsMap env page data) k = Some row"
    and "rowInv env page data k row"
    and "R = row\<lparr>row_weeks := map (\<lambda>w. (weekLabel w, cellOf env k w data)) (last5Weeks env)\<rparr>"
proof -
  from assms obtain k row where in_map: "(k, row) \<in> set (buildRowsMap env page data)"
    and R: "R = completeRow (last5Weeks env) row"
    by (auto simp: rows_pivotData)
  from in_map have look: "map_of (buildRowsMap env page data) k = Some row"
    by (simp add: distinct_buildRowsMap)
  then have inv: "rowInv env page data k row" by (rule rowInv_buildRowsMap)
  from that [OF look inv] R completeRow_inv [OF inv] show thesis by simp
qed

lemma targetRow_Some:
  assumes "r \<in> set data" and "inWindow env r"
  obtains row where "map_of (buildRowsMap env page data) (rowKey r) = Some row"
    and "rowInv env page data (rowKey r) row"
    and "targetRow env page data r =
           Some (row\<lparr>row_weeks := map (\<lambda>w. (weekLabel w, cellOf env (rowKey r) w data)) (last5Weeks env)\<rparr>)"
proof -
  from assms have "rowKey r \<in> fst ` set (buildRowsMap env page data)"
    by (auto simp: keys_buildRowsMap)
  then obtain row where look: "map_of (buildRowsMap env page data) (rowKey r) = Some row"
    by (metis map_of_eq_None_iff not_Some_eq)
  then have inv: "rowInv env page data (rowKey r) row" by (rule rowInv_buildRowsMap)
  from that [OF look inv] assms(2) look completeRow_inv [OF inv] show thesis
    by (simp add: targetRow_def mapGet_def)
qed

lemma targetRow_in_rows:
  assumes "targetRow env page data r = Some R"
  shows "R \<in> set (rows (pivotData env page (Some data)))"
proof -
  from assms obtain row where "map_of (buildRowsMap env page data) (rowKey r) = Some row"
    and "R = completeRow (last5Weeks env) row"
    by (auto simp: targetRow_def mapGet_def split: if_splits)
  then show ?thesis
    by (force simp: rows_pivotData dest: map_of_SomeD)
qed

lemma rowKey_hyphenFree:
  assumes "hyphenFree r" and "hyphenFree r'"
  shows "rowKey r = rowKey r' \<longleftrightarrow> sameGroup r r'"
  using assms split_at_hyphen [of "brickOrUnknown (mh_brick r)" "site_id r"
                                 "brickOrUnknown (mh_brick r')" "site_id r'"]
  by (auto simp: rowKey_def sameGroup_def hyphenFree_def)

lemma sameGroup_rowKey: "sameGroup r r' \<Longrightarrow> rowKey r = rowKey r'"
  by (simp add: rowKey_def sameGroup_def)

lemma update_map_values:
  "AList.update k (f k v) (map (\<lambda>(k, v). (k, f k v)) al) =
   map (\<lambda>(k, v). (k, f k v)) (AList.update k v al)"
  by (induction al) auto

lemma map_of_map_values:
  "map_of (map (\<lambda>(k, v). (k, f k v)) al) k = map_option (f k) (map_of al k)"
  by (induction al) auto

lemma baseRow_retag:
  assumes "G' = map (\<lambda>(k, row). (k, retag p' k row)) G"
  shows "baseRow env p' G' x = retag p' (rowKey x) (baseRow env p G x)"
  using assms
  by (cases "map_of G (rowKey x)") (simp_all add: baseRow_def map_of_map_values retag_def)

lemma buildRowsMap_page:
  "buildRowsMap env p' xs = map (\<lambda>(k, row). (k, retag p' k row)) (buildRowsMap env p xs)"
proof (induction xs rule: rev_induct)
  case Nil
  show ?case by simp
next
  case (snoc x xs)
  show ?case
  proof (cases "inWindow env x")
    case False
    with snoc show ?thesis by (simp add: buildRowsMap_snoc pivotStep_skip)
  next
    case True
    then obtain w where w: "weekNumberOf env x = Some w" "w \<in> set (last5Weeks env)"
      by (auto simp: inWindow_week)
    let ?G = "buildRowsMap env p xs"
    let ?B = "baseRow env p ?G x"
    have base: "baseRow env p' (buildRowsMap env p' xs) x = retag p' (rowKey x) ?B"
      using snoc by (rule baseRow_retag)
    let ?G' = "buildRowsMap env p' xs"
    let ?B' = "baseRow env p' ?G' x"
    have "buildRowsMap env p' (xs @ [x]) =
            AList.update (rowKey x)
              (?B'\<lparr>row_weeks := AList.update (weekLabel w) (predicted_qty x) (row_weeks ?B')\<rparr>) ?G'"
      by (simp only: buildRowsMap_snoc pivotStep_hit [OF w])
    also have "?B'\<lparr>row_weeks := AList.update (weekLabel w) (predicted_qty x) (row_weeks ?B')\<rparr> =
               retag p' (rowKey x)
                 (?B\<lparr>row_weeks := AList.update (weekLabel w) (predicted_qty x) (row_weeks ?B)\<rparr>)"
      unfolding base by (simp add: retag_def)
    also have "AList.update (rowKey x)
              (retag p' (rowKey x)
                 (?B\<lparr>row_weeks := AList.update (weekLabel w) (predicted_qty x) (row_weeks ?B)\<rparr>)) ?G'
          = map (\<lambda>(k, row). (k, retag p' k row)) (buildRowsMap env p (xs @ [x]))"
      unfolding snoc
      by (simp only: buildRowsMap_snoc pivotStep_hit [OF w] update_map_values)
    finally show ?thesis .
  qed
qed

lemma rowContent_completeRow_retag:
  "rowContent (completeRow ws (retag p k row)) = rowContent (completeRow ws row)"
  by (simp add: rowContent_def completeRow_def retag_def)

subsection \<open>Window, completeness and malformed weeks\<close>

text \<open>
  Claim C1. A record whose computed week number is not in the window from
  \<open>currentWeek - 4\<close> to \<open>currentWeek\<close> (or is not a number at all) contributes to no
  cell of any row: with the record or without it, at any position of the input, the
  pivot is the same.
\<close>

theorem pivot_window_exclusion:
  assumes "\<not> inWindow env r"
  shows "pivotData env page (Some (xs @ r # ys)) = pivotData env page (Some (xs @ ys))"
  using assms by (rule pivotData_drop)

theorem pivot_window_exclusion_witness:
  "\<not> inWindow marchEnv (rec (Some ''A'') ''S1'' ''2024-01-01'' 7) \<and>
   pivotData marchEnv 1
     (Some ([rec (Some ''A'') ''S1'' ''2024-03-11'' 10] @
            rec (Some ''A'') ''S1'' ''2024-01-01'' 7 #
            [rec (Some ''B'') ''S2'' ''2024-03-04'' 3])) =
   pivotData marchEnv 1
     (Some ([rec (Some ''A'') ''S1'' ''2024-03-11'' 10] @ [rec (Some ''B'') ''S2'' ''2024-03-04'' 3]))"
proof -
  have out: "\<not> inWindow marchEnv (rec (Some ''A'') ''S1'' ''2024-01-01'' 7)"
    by code_simp
  from out pivot_window_exclusion [OF out] show ?thesis by blast
qed

text \<open>
  Every row of the pivot has exactly five week entries, one for each label of the
  window and in the order of the window. The group of a row is the records with the
  row's brick and site; when no brick label of the input contains a hyphen, a week of
  the window in which that group has no record maps to 0.
\<close>

lemma pivot_rows_complete:
  assumes "R \<in> set (rows (pivotData env page (Some data)))"
  shows "length (row_weeks R) = 5 \<and>
         map fst (row_weeks R) = map weekLabel (last5Weeks env) \<and>
         distinct (map fst (row_weeks R))"
proof -
  from assms obtain k row where
    R: "R = row\<lparr>row_weeks := map (\<lambda>w. (weekLabel w, cellOf env k w data)) (last5Weeks env)\<rparr>"
    by (rule output_row_cases)
  have keys: "map fst (row_weeks R) = map weekLabel (last5Weeks env)"
    by (simp add: R comp_def)
  have "distinct (map fst (row_weeks R))"
    unfolding keys by (rule distinct_labels) (rule distinct_last5Weeks)
  with keys show ?thesis by (simp add: R last5Weeks_eq)
qed

lemma pivot_zero_fill_hyphen_free:
  assumes "R \<in> set (rows (pivotData env page (Some data)))"
    and "\<forall>r\<in>set data. hyphenFree r"
    and "w \<in> set (last5Weeks env)"
    and "recordsOfRow env data R w = []"
  shows "objGet (row_weeks R) (weekLabel w) = Some 0"
proof -
  from assms(1) obtain k row where inv: "rowInv env page data k row"
    and R: "R = row\<lparr>row_weeks := map (\<lambda>w. (weekLabel w, cellOf env k w data)) (last5Weeks env)\<rparr>"
    by (rule output_row_cases)
  from inv obtain r0 where r0: "r0 \<in> set data" "rowKey r0 = k"
    "row_mh_brick row = brickOrUnknown (mh_brick r0)" "row_site_id row = site_id r0"
    by (auto simp: rowInv_def)
  have "hits env k w data = []"
  proof (rule ccontr)
    assume "hits env k w data \<noteq> []"
    then obtain r where r: "r \<in> set data" "rowKey r = k" "weekNumberOf env r = Some w"
      by (auto simp: hits_def filter_empty_conv)
    from r(1) r0(1) assms(2) have "rowKey r = rowKey r0 \<longleftrightarrow> sameGroup r r0"
      by (intro rowKey_hyphenFree) auto
    with r(2) r0(2) have "sameGroup r r0" by simp
    with r0(3,4) R have "brickOrUnknown (mh_brick r) = row_mh_brick R \<and> site_id r = row_site_id R"
      by (simp add: sameGroup_def)
    with r(1,3) have "r \<in> set (recordsOfRow env data R w)"
      by (simp add: recordsOfRow_def)
    with assms(4) show False by simp
  qed
  then have "cellOf env k w data = 0" by (simp add: cellOf_def)
  with map_of_labels [OF distinct_last5Weeks assms(3), of "\<lambda>w. cellOf env k w data"]
  show ?thesis by (simp add: objGet_def R)
qed

text \<open>
  Claim C2. Every row has exactly five week entries, and a week of the window in which
  the row's group has no surviving record maps to 0. The table misses the second part
  where the key strings of two groups coincide: the records below belong to the groups
  (A-B, C) and (A, B-C), both have the key \<^verbatim>\<open>A-B-C\<close>, and the one row of the output,
  shown as brick A-B at site C, holds 7 in week 10, a week in which the group (A-B, C)
  has no record.
\<close>

theorem pivot_zero_fill_key_collision:
  "rows (pivotData marchEnv 1
     (Some [rec (Some ''A-B'') ''C'' ''2024-03-11'' 5, rec (Some ''A'') ''B-C'' ''2024-03-04'' 7])) =
   [\<lparr>row_mh_brick = ''A-B'', row_site_id = ''C'',
     row_weeks = [(''Week 7'', 0), (''Week 8'', 0), (''Week 9'', 0), (''Week 10'', 7), (''Week 11'', 5)],
     row_pageId = ''1-A-B-C''\<rparr>] \<and>
   10 \<in> set (last5Weeks marchEnv) \<and>
   recordsOfRow marchEnv
     [rec (Some ''A-B'') ''C'' ''2024-03-11'' 5, rec (Some ''A'') ''B-C'' ''2024-03-04'' 7]
     \<lparr>row_mh_brick = ''A-B'', row_site_id = ''C'',
      row_weeks = [(''Week 7'', 0), (''Week 8'', 0), (''Week 9'', 0), (''Week 10'', 7), (''Week 11'', 5)],
      row_pageId = ''1-A-B-C''\<rparr> 10 = [] \<and>
   objGet [(''Week 7'', 0), (''Week 8'', 0), (''Week 9'', 0), (''Week 10'', 7), (''Week 11'', 5)]
     (weekLabel 10) = Some 7"
  unfolding rows_pivotData by code_simp

text \<open>
  Claim C6. For an empty list of records the pivot has no rows, and its week
  descriptors are still the five of the window, each with its label and date range.
\<close>

theorem pivot_empty_input:
  "rows (pivotData env page (Some [])) = [] \<and>
   length (weeks (pivotData env page (Some []))) = 5 \<and>
   weeks (pivotData env page (Some [])) =
     map (\<lambda>w. \<lparr>week = weekLabel w, dateRange = getWeekDateRange env w (getFullYear env (now env))\<rparr>)
       [currentWeek env - 4, currentWeek env - 3, currentWeek env - 2, currentWeek env - 1,
        currentWeek env]"
  by (simp add: rows_pivotData weeks_pivotData last5Weeks_eq)

theorem pivot_empty_input_witness:
  "rows (pivotData marchEnv 1 (Some [])) = [] \<and>
   map week (weeks (pivotData marchEnv 1 (Some []))) =
     [''Week 7'', ''Week 8'', ''Week 9'', ''Week 10'', ''Week 11'']"
proof -
  have "map weekLabel
          [currentWeek marchEnv - 4, currentWeek marchEnv - 3, currentWeek marchEnv - 2,
           currentWeek marchEnv - 1, currentWeek marchEnv] =
        [''Week 7'', ''Week 8'', ''Week 9'', ''Week 10'', ''Week 11'']"
    by code_simp
  with pivot_empty_input [of marchEnv 1] show ?thesis by (simp add: comp_def)
qed

text \<open>
  Claim C7. A record whose \<^verbatim>\<open>forecast_week\<close> is not a valid date is left out: the pivot
  is the one of the input without the record. The pivot is a total function, so a
  result is returned, and it is complete: five week descriptors and five week entries
  in every row.
\<close>

theorem pivot_malformed_week_skipped:
  assumes "newDate env (forecast_week r) = None"
  shows "pivotData env page (Some (xs @ r # ys)) = pivotData env page (Some (xs @ ys)) \<and>
         length (weeks (pivotData env page (Some (xs @ r # ys)))) = 5 \<and>
         (\<forall>R\<in>set (rows (pivotData env page (Some (xs @ r # ys)))). length (row_weeks R) = 5)"
proof -
  from assms have out: "\<not> inWindow env r"
    by (simp add: inWindow_def weekNumberOf_def getWeekNumber_def)
  have rows5: "length (row_weeks R) = 5"
    if "R \<in> set (rows (pivotData env page (Some (xs @ r # ys))))" for R
    using that by (rule output_row_cases) (simp add: last5Weeks_eq)
  from pivotData_drop [OF out] rows5 show ?thesis
    by (simp add: weeks_pivotData last5Weeks_eq)
qed

theorem pivot_malformed_week_skipped_witness:
  "newDate marchEnv (forecast_week (rec (Some ''A'') ''S1'' ''next week'' 7)) = None \<and>
   pivotData marchEnv 1
     (Some ([rec (Some ''A'') ''S1'' ''2024-03-11'' 10] @
            rec (Some ''A'') ''S1'' ''next week'' 7 # [])) =
   pivotData marchEnv 1 (Some ([rec (Some ''A'') ''S1'' ''2024-03-11'' 10] @ [])) \<and>
   length (weeks (pivotData marchEnv 1
     (Some ([rec (Some ''A'') ''S1'' ''2024-03-11'' 10] @
            rec (Some ''A'') ''S1'' ''next week'' 7 # [])))) = 5"
proof -
  have bad: "newDate marchEnv (forecast_week (rec (Some ''A'') ''S1'' ''next week'' 7)) = None"
    by code_simp
  from bad pivot_malformed_week_skipped [OF bad, of 1 "[rec (Some ''A'') ''S1'' ''2024-03-11'' 10]" "[]"]
  show ?thesis by blast
qed

subsection \<open>Grouping and collisions\<close>

text \<open>
  The key of a row is the string \<^verbatim>\<open>`${mh_brick || 'Unknown'}-${site_id}`\<close>. Two
  different pairs of brick and site can have the same key when a brick label contains
  a hyphen; their records then share one row, which shows the brick and site of the
  first of them.
\<close>

lemma hyphen_keys_collide:
  "rowKey (rec (Some ''A-B'') ''C'' ''2024-03-11'' 5) = rowKey (rec (Some ''A'') ''B-C'' ''2024-03-04'' 7) \<and>
   \<not> sameGroup (rec (Some ''A-B'') ''C'' ''2024-03-11'' 5) (rec (Some ''A'') ''B-C'' ''2024-03-04'' 7) \<and>
   map rowContent (rows (pivotData marchEnv 1
     (Some [rec (Some ''A-B'') ''C'' ''2024-03-11'' 5, rec (Some ''A'') ''B-C'' ''2024-03-04'' 7]))) =
   [(''A-B'', ''C'',
     [(''Week 7'', 0), (''Week 8'', 0), (''Week 9'', 0), (''Week 10'', 7), (''Week 11'', 5)])]"
  unfolding rows_pivotData by code_simp

text \<open>
  Claim C3, as stated with \<^verbatim>\<open>mh_brick ?? "Unknown"\<close>, fails: a record without a brick and
  a record with the empty brick are different groups under \<^verbatim>\<open>??\<close>, yet the table
  writes both to the row of the brick "Unknown". Below, two records share the group
  ("Unknown", S1) and the week; the last of them carries 20, and the cell holds the
  30 of the record with the empty brick.
\<close>

theorem pivot_last_write_nullish_counterexample:
  "length (groupWeekNullish marchEnv
     [rec None ''S1'' ''2024-03-11'' 10, rec None ''S1'' ''2024-03-11'' 20,
      rec (Some []) ''S1'' ''2024-03-11'' 30]
     (rec None ''S1'' ''2024-03-11'' 10)) = 2 \<and>
   predicted_qty (last (groupWeekNullish marchEnv
     [rec None ''S1'' ''2024-03-11'' 10, rec None ''S1'' ''2024-03-11'' 20,
      rec (Some []) ''S1'' ''2024-03-11'' 30]
     (rec None ''S1'' ''2024-03-11'' 10))) = 20 \<and>
   cellFor marchEnv 1
     [rec None ''S1'' ''2024-03-11'' 10, rec None ''S1'' ''2024-03-11'' 20,
      rec (Some []) ''S1'' ''2024-03-11'' 30]
     (rec None ''S1'' ''2024-03-11'' 10) = Some 30"
  by code_simp

text \<open>
  Claim C3, amended. The group of a record is given by \<^verbatim>\<open>mh_brick || 'Unknown'\<close> and
  \<^verbatim>\<open>site_id\<close>. When no brick label of the input contains a hyphen, the cell of a
  surviving record's row and week holds the \<^verbatim>\<open>predicted_qty\<close> of the last surviving
  record of the input with the same group and the same week number.
\<close>

theorem pivot_last_write_wins:
  assumes "r \<in> set data" and "inWindow env r" and "\<forall>r'\<in>set data. hyphenFree r'"
  shows "cellFor env page data r = Some (predicted_qty (last (groupWeek env data r)))"
proof -
  from assms(2) obtain w where w: "weekNumberOf env r = Some w" "w \<in> set (last5Weeks env)"
    by (auto simp: inWindow_week)
  from assms(1,2) obtain row where
    tr: "targetRow env page data r =
           Some (row\<lparr>row_weeks := map (\<lambda>w. (weekLabel w, cellOf env (rowKey r) w data)) (last5Weeks env)\<rparr>)"
    by (rule targetRow_Some)
  have "groupWeek env data r = hits env (rowKey r) w data"
    unfolding groupWeek_def hits_def
  proof (rule filter_cong [OF refl])
    fix r' assume "r' \<in> set data"
    with assms(1,3) have "rowKey r' = rowKey r \<longleftrightarrow> sameGroup r' r"
      by (intro rowKey_hyphenFree) auto
    with w show "(inWindow env r' \<and> sameGroup r' r \<and> weekNumberOf env r' = weekNumberOf env r) =
                 (rowKey r' = rowKey r \<and> weekNumberOf env r' = Some w)"
      by (auto simp: inWindow_week)
  qed
  moreover have "hits env (rowKey r) w data \<noteq> []"
    using assms(1) w by (auto simp: hits_def filter_empty_conv)
  ultimately have "cellOf env (rowKey r) w data = predicted_qty (last (groupWeek env data r))"
    by (simp add: cellOf_def)
  with tr w map_of_labels [OF distinct_last5Weeks w(2), of "\<lambda>w. cellOf env (rowKey r) w data"]
  show ?thesis
    by (simp add: cellFor_def objGet_def)
qed

theorem pivot_last_write_wins_witness:
  "inWindow marchEnv (rec (Some ''A'') ''S1'' ''2024-03-11'' 10) \<and>
   cellFor marchEnv 1
     [rec (Some ''A'') ''S1'' ''2024-03-11'' 10, rec (Some ''A'') ''S1'' ''2024-03-11'' 20]
     (rec (Some ''A'') ''S1'' ''2024-03-11'' 10) = Some 20"
proof -
  let ?r = "rec (Some ''A'') ''S1'' ''2024-03-11'' 10"
  let ?d = "[?r, rec (Some ''A'') ''S1'' ''2024-03-11'' 20]"
  have mem: "?r \<in> set ?d" by simp
  have inw: "inWindow marchEnv ?r" by code_simp
  have hf: "\<forall>r'\<in>set ?d. hyphenFree r'" by code_simp
  have lst: "predicted_qty (last (groupWeek marchEnv ?d ?r)) = 20" by code_simp
  from pivot_last_write_wins [OF mem inw hf, of 1] lst inw show ?thesis by simp
qed

text \<open>
  Claim C4, as stated with \<^verbatim>\<open>mh_brick ?? "Unknown"\<close>, fails for the same reason: the two
  records below disagree on \<^verbatim>\<open>mh_brick ?? "Unknown"\<close> and are written to the same row.
\<close>

theorem pivot_grouping_nullish_counterexample:
  "targetRow marchEnv 1
     [rec None ''S1'' ''2024-03-11'' 10, rec (Some []) ''S1'' ''2024-03-11'' 30]
     (rec None ''S1'' ''2024-03-11'' 10) =
   targetRow marchEnv 1
     [rec None ''S1'' ''2024-03-11'' 10, rec (Some []) ''S1'' ''2024-03-11'' 30]
     (rec (Some []) ''S1'' ''2024-03-11'' 30) \<and>
   \<not> sameGroupNullish (rec None ''S1'' ''2024-03-11'' 10) (rec (Some []) ''S1'' ''2024-03-11'' 30)"
  by code_simp

text \<open>
  Claim C4, amended. Two surviving records that agree on \<^verbatim>\<open>mh_brick || 'Unknown'\<close> and
  on \<^verbatim>\<open>site_id\<close> are written to the same row of the pivot; two surviving records whose
  brick labels contain no hyphen and that are written to the same row agree on both;
  and the row a surviving record is written to is a row of the output.
\<close>

theorem pivot_grouping_by_key:
  assumes "r \<in> set data" and "r' \<in> set data" and "inWindow env r" and "inWindow env r'"
  shows "(sameGroup r r' \<longrightarrow> targetRow env page data r = targetRow env page data r') \<and>
         (hyphenFree r \<and> hyphenFree r' \<and> targetRow env page data r = targetRow env page data r'
            \<longrightarrow> sameGroup r r') \<and>
         (\<exists>R\<in>set (rows (pivotData env page (Some data))). targetRow env page data r = Some R)"
proof -
  from assms(1,3) obtain row where
    inv: "rowInv env page data (rowKey r) row" and
    tr: "targetRow env page data r =
           Some (row\<lparr>row_weeks := map (\<lambda>w. (weekLabel w, cellOf env (rowKey r) w data)) (last5Weeks env)\<rparr>)"
    by (rule targetRow_Some)
  from assms(2,4) obtain row' where
    inv': "rowInv env page data (rowKey r') row'" and
    tr': "targetRow env page data r' =
           Some (row'\<lparr>row_weeks := map (\<lambda>w. (weekLabel w, cellOf env (rowKey r') w data)) (last5Weeks env)\<rparr>)"
    by (rule targetRow_Some)
  have fwd: "targetRow env page data r = targetRow env page data r'" if "sameGroup r r'"
    using that assms(3,4) by (simp add: targetRow_def sameGroup_rowKey)
  have bwd: "sameGroup r r'"
    if "hyphenFree r" "hyphenFree r'" "targetRow env page data r = targetRow env page data r'"
  proof -
    from that(3) tr tr' have "row_pageId row = row_pageId row'"
      by (metis option.inject pivot_row.select_convs(4) pivot_row.surjective pivot_row.update_convs(3))
    with inv inv' have "rowKey r = rowKey r'" by (simp add: rowInv_def)
    with that(1,2) show ?thesis by (simp add: rowKey_hyphenFree)
  qed
  from tr have "\<exists>R\<in>set (rows (pivotData env page (Some data))). targetRow env page data r = Some R"
    by (auto intro: targetRow_in_rows)
  with fwd bwd show ?thesis by blast
qed

theorem pivot_grouping_by_key_witness:
  "sameGroup (rec (Some ''A'') ''S1'' ''2024-03-11'' 10) (rec (Some ''A'') ''S1'' ''2024-03-04'' 4) \<and>
   targetRow marchEnv 1
     [rec (Some ''A'') ''S1'' ''2024-03-11'' 10, rec (Some ''A'') ''S1'' ''2024-03-04'' 4]
     (rec (Some ''A'') ''S1'' ''2024-03-11'' 10) =
   targetRow marchEnv 1
     [rec (Some ''A'') ''S1'' ''2024-03-11'' 10, rec (Some ''A'') ''S1'' ''2024-03-04'' 4]
     (rec (Some ''A'') ''S1'' ''2024-03-04'' 4)"
proof -
  let ?r = "rec (Some ''A'') ''S1'' ''2024-03-11'' 10"
  let ?r' = "rec (Some ''A'') ''S1'' ''2024-03-04'' 4"
  let ?d = "[?r, ?r']"
  have mem: "?r \<in> set ?d" "?r' \<in> set ?d" by simp_all
  have inw: "inWindow marchEnv ?r" "inWindow marchEnv ?r'" by code_simp+
  have same: "sameGroup ?r ?r'" by code_simp
  have hf: "hyphenFree ?r" "hyphenFree ?r'" by code_simp+
  from pivot_grouping_by_key [OF mem inw, of 1] same hf show ?thesis by blast
qed

subsection \<open>What the pivot depends on\<close>

text \<open>
  Claim C8, as stated, fails: the pivot is not determined by the records and the
  reference date alone. Each row carries the tag \<^verbatim>\<open>`${page}-${key}`\<close>, so the same
  records at the same instant give different rows on page 1 and on page 2.
\<close>

theorem pivot_page_counterexample:
  "pivotData marchEnv 1 (Some [rec (Some ''A'') ''S1'' ''2024-03-11'' 10]) \<noteq>
   pivotData marchEnv 2 (Some [rec (Some ''A'') ''S1'' ''2024-03-11'' 10])"
proof
  let ?d = "[rec (Some ''A'') ''S1'' ''2024-03-11'' 10]"
  assume "pivotData marchEnv 1 (Some ?d) = pivotData marchEnv 2 (Some ?d)"
  then have "map row_pageId (rows (pivotData marchEnv 1 (Some ?d))) =
             map row_pageId (rows (pivotData marchEnv 2 (Some ?d)))"
    by simp
  moreover have "map row_pageId (rows (pivotData marchEnv 1 (Some ?d))) = [''1-A-S1'']"
    unfolding rows_pivotData by code_simp
  moreover have "map row_pageId (rows (pivotData marchEnv 2 (Some ?d))) = [''2-A-S1'']"
    unfolding rows_pivotData by code_simp
  ultimately show False by simp
qed

text \<open>
  Claim C8, amended. The pivot is a function of the records, the instant read from the
  clock and the page number (the window width is fixed at five); the page number enters
  the row tags only: the week descriptors, and the brick, site and week cells of the
  rows, in their order, are the same on every page.
\<close>

theorem pivot_page_only_tags_rows:
  "weeks (pivotData env p sourceData) = weeks (pivotData env p' sourceData) \<and>
   map rowContent (rows (pivotData env p sourceData)) =
   map rowContent (rows (pivotData env p' sourceData))"
proof (cases sourceData)
  case None
  then show ?thesis by (simp add: pivotData_def)
next
  case (Some data)
  have "map rowContent (rows (pivotData env p' (Some data))) =
        map rowContent (rows (pivotData env p (Some data)))"
    unfolding rows_pivotData buildRowsMap_page [of env p' data p]
    by (simp add: comp_def case_prod_unfold rowContent_completeRow_retag)
  with Some show ?thesis by (simp add: weeks_pivotData)
qed

theorem pivot_page_only_tags_rows_witness:
  "map rowContent (rows (pivotData marchEnv 1 (Some [rec (Some ''A'') ''S1'' ''2024-03-11'' 10]))) =
   map rowContent (rows (pivotData marchEnv 2 (Some [rec (Some ''A'') ''S1'' ''2024-03-11'' 10]))) \<and>
   weeks (pivotData marchEnv 1 (Some [rec (Some ''A'') ''S1'' ''2024-03-11'' 10])) =
   weeks (pivotData marchEnv 2 (Some [rec (Some ''A'') ''S1'' ''2024-03-11'' 10]))"
  using pivot_page_only_tags_rows [of marchEnv 1 "Some [rec (Some ''A'') ''S1'' ''2024-03-11'' 10]" 2]
  by blast

section \<open>Properties of the query layer\<close>

text \<open>Numeric retry options: the waits depend on the number of leading failures only.\<close>

lemma runQuery_count:
  assumes "retry opts = RetryCount n" and "retryDelay opts = DelayMs d"
  shows "fst (runQuery opts failureCount results) =
           replicate (min (length (takeWhile isl results)) (n - failureCount)) d"
proof (induction results arbitrary: failureCount)
  case Nil
  show ?case by simp
next
  case (Cons result later)
  show ?case
  proof (cases result)
    case (Inr body)
    then show ?thesis by simp
  next
    case (Inl error)
    show ?thesis
    proof (cases "failureCount < n")
      case True
      then have "n - failureCount = Suc (n - Suc failureCount)" by simp
      with True Inl assms Cons.IH [of "Suc failureCount"] show ?thesis
        by (simp add: shouldRetry_def delayFor_def case_prod_unfold Let_def)
    next
      case False
      with Inl assms show ?thesis
        by (simp add: shouldRetry_def)
    qed
  qed
qed

lemma queryLayerOptions_cases:
  assumes "opts \<in> set queryLayerOptions"
  shows "(retry opts = RetryCount 1 \<and> retryDelay opts = DelayMs 2000) \<or>
         (retry opts = RetryCount 2 \<and> retryDelay opts = DelayMs 1000)"
  using assms
  by (auto simp: queryLayerOptions_def withDefaults_def queryClient_defaultOptions_def
        useForecastData_options_def useForecastDataByBrick_options_def
        useForecastSummary_options_def useUniqueValues_options_def useUniqueBricks_options_def
        useUniqueBrands_options_def useUniqueSites_options_def useHealthCheck_options_def
        useForecastMetadata_options_def useFilteredForecastData_options_def
        useSimpleFilteredForecastData_options_def useSmartFilteredForecastData_options_def
        useAllForecastData_options_def prefetchQuery_options_def)

text \<open>
  Claim C5, as stated, fails in its last part: a response with status 404 is retried
  like any other failure. Every query of the repository sets \<^verbatim>\<open>retry\<close> to a number, and
  the service replaces the client's error by one that keeps its message only.
\<close>

theorem retry_client_error_counterexample:
  "status notFound = Some 404 \<and>
   fst (runQuery useForecastData_options 0
          [getForecastData (Inl notFound), getForecastData (Inl notFound) :: js_error + nat]) = [2000]"
  by code_simp

text \<open>
  Claim C5, amended. On a failed fetch a query is retried a bounded number of times
  with a fixed wait, and every failure is retried alike, whatever its kind: a server
  error, a network failure and a client error. For every query of the repository the
  number of retries is the number of failed calls in a row, up to the bound of the
  query (1, or 2 for the health check), and every wait is the delay of the query
  (2000 ms, or 1000 ms for the health check).
\<close>

theorem retry_any_failure_alike:
  assumes "opts \<in> set queryLayerOptions"
  shows "\<exists>n d. retry opts = RetryCount n \<and> retryDelay opts = DelayMs d \<and>
           ((n = 1 \<and> d = 2000) \<or> (n = 2 \<and> d = 1000)) \<and>
           fst (runQuery opts 0 results) = replicate (min (length (takeWhile isl results)) n) d"
proof -
  from queryLayerOptions_cases [OF assms] show ?thesis
  proof
    assume o: "retry opts = RetryCount 1 \<and> retryDelay opts = DelayMs 2000"
    then have "fst (runQuery opts 0 results) = replicate (min (length (takeWhile isl results)) 1) 2000"
      using runQuery_count [of opts 1 2000 0 results] by simp
    with o show ?thesis by blast
  next
    assume o: "retry opts = RetryCount 2 \<and> retryDelay opts = DelayMs 1000"
    then have "fst (runQuery opts 0 results) = replicate (min (length (takeWhile isl results)) 2) 1000"
      using runQuery_count [of opts 2 1000 0 results] by simp
    with o show ?thesis by blast
  qed
qed

theorem retry_any_failure_alike_witness:
  "useHealthCheck_options \<in> set queryLayerOptions \<and>
   fst (runQuery useHealthCheck_options 0
          [checkHealth (Inl networkError), checkHealth (Inl notFound), checkHealth (Inl serverError),
           Inr (7::nat)]) = [1000, 1000] \<and>
   fst (runQuery useUniqueBricks_options 0
          [getUniqueBricks (Inl notFound), Inr (7::nat)]) = [2000]"
proof -
  let ?rs = "[checkHealth (Inl networkError), checkHealth (Inl notFound), checkHealth (Inl serverError),
              Inr (7::nat)]"
  let ?bs = "[getUniqueBricks (Inl notFound), Inr (7::nat)]"
  have mem: "useHealthCheck_options \<in> set queryLayerOptions"
    and mem': "useUniqueBricks_options \<in> set queryLayerOptions"
    by (simp_all add: queryLayerOptions_def)
  have lead: "length (takeWhile isl ?rs) = 3" "length (takeWhile isl ?bs) = 1"
    by (simp_all add: checkHealth_def getUniqueBricks_def)
  have h: "retry useHealthCheck_options = RetryCount 2" "retryDelay useHealthCheck_options = DelayMs 1000"
    and b: "retry useUniqueBricks_options = RetryCount 1" "retryDelay useUniqueBricks_options = DelayMs 2000"
    by (simp_all add: useHealthCheck_options_def useUniqueBricks_options_def withDefaults_def
                      queryClient_defaultOptions_def)
  from retry_any_failure_alike [OF mem, of ?rs] h lead(1)
  have "fst (runQuery useHealthCheck_options 0 ?rs) = [1000, 1000]"
    by (auto simp: numeral_2_eq_2)
  moreover from retry_any_failure_alike [OF mem', of ?bs] b lead(2)
  have "fst (runQuery useUniqueBricks_options 0 ?bs) = [2000]"
    by auto
  ultimately show ?thesis using mem by simp
qed




















text \<open>
  A render with another filter state, here the initial one after a state with a brand
  chosen, has other hashes and makes its own calls.
\<close>

lemma other_filters_other_entry:
  "requests (renderQueries initialFilterState
      (renderQueries
         (initialFilterState\<lparr>brandFilter := ''Acme'', quantityRangeFilter_min := Some 0, pageState := 2\<rparr>)
         emptyClient)) =
   [[JStr ''forecast'', JStr ''list'',
     JObj [(''brand'', JStr ''Acme''), (''limit'', JNum 50), (''min_predicted_qty'', JNum 0),
           (''offset'', JNum 50)]],
    [JStr ''forecast'', JStr ''list'',
     JObj [(''limit'', JNum 50), (''mh_brick'', JStr []), (''offset'', JNum 0)]],
    [JStr ''forecast'', JStr ''summary'', JObj [(''mh_brick'', JStr [])]]]"
  by code_simp

text \<open>
  Claim C10. On a response of the interface \<^verbatim>\<open>ForecastResponse\<close>, and while there is no
  response, \<^verbatim>\<open>totalPages\<close> is 1, \<^verbatim>\<open>hasNextPage\<close> is false for every page from 1 on, and
  \<^verbatim>\<open>prefetchNextPage\<close> hands no query to the client.
\<close>

theorem never_a_next_page:
  assumes "1 \<le> pg"
  shows "totalPages queryData = 1 \<and> \<not> hasNextPage queryData pg \<and>
         prefetchNextPage queryData brick start_date end_date perPage pg enabled = []"
proof -
  have tp: "totalPages queryData = 1"
    by (cases queryData) (simp_all add: totalPages_def total_pages_def)
  with assms have "\<not> hasNextPage queryData pg"
    by (simp add: hasNextPage_def)
  with tp show ?thesis by (simp add: prefetchNextPage_def)
qed

theorem never_a_next_page_witness:
  "(1::int) \<le> 3 \<and>
   totalPages (Some \<lparr>resp_data = [], total_records = 500, resp_page = 3, page_size = 50,
                    has_next = True\<rparr>) = 1 \<and>
   \<not> hasNextPage (Some \<lparr>resp_data = [], total_records = 500, resp_page = 3, page_size = 50,
                        has_next = True\<rparr>) 3 \<and>
   prefetchNextPage (Some \<lparr>resp_data = [], total_records = 500, resp_page = 3, page_size = 50,
                           has_next = True\<rparr>) [] None None 50 3 True = []"
proof -
  have h: "(1::int) \<le> 3" by simp
  from h never_a_next_page [OF h] show ?thesis by blast
qed

end
